theory Spec2Isabelle
  imports Complex_Main
begin

section \<open>Values and exceptions of the Python program\<close>

text \<open>
  The component under verification is the class \<open>MCPClient\<close> of
  \<^verbatim>\<open>tests/mcp-funcn-app-test.py\<close>: a client that listens to a server-sent-event
  stream on a background thread and issues JSON-RPC calls by HTTP POST.

  Values decoded by \<^verbatim>\<open>json.loads\<close> are Python objects. An object (a \<^verbatim>\<open>dict\<close>)
  is an association list read with \<open>map_of\<close>; a float is carried by its \<^verbatim>\<open>repr\<close>,
  which identifies it. Strings are lists of characters.
\<close>

datatype json =
    JNull
  | JBool bool
  | JInt int
  | JFloat string
  | JString string
  | JArray "json list"
  | JObject "(string \<times> json) list"

text \<open>
  Exceptions. \<open>MCPClientError\<close> is the class of the source; its argument is a message or,
  at line 106, the \<^verbatim>\<open>error\<close> member of a response. The others are Python's own.
  \<open>RequestException\<close> stands for whatever \<^verbatim>\<open>requests\<close> raises from a POST that does
  not complete.
\<close>

datatype pyerror =
    MCPClientError json
  | TimeoutError string
  | TypeError
  | AttributeError
  | KeyError
  | ValueError
  | RecursionError
  | RequestException string

subsection \<open>Truthiness, membership and \<^verbatim>\<open>dict.get\<close>\<close>

fun truthy :: "json \<Rightarrow> bool" where
  "truthy JNull = False"
| "truthy (JBool b) = b"
| "truthy (JInt i) = (i \<noteq> 0)"
| "truthy (JFloat r) = (r \<noteq> ''0.0'' \<and> r \<noteq> ''-0.0'')"
| "truthy (JString s) = (s \<noteq> [])"
| "truthy (JArray xs) = (xs \<noteq> [])"
| "truthy (JObject kvs) = (kvs \<noteq> [])"

fun startswith :: "string \<Rightarrow> string \<Rightarrow> bool" where
  "startswith s [] = True"
| "startswith [] (p # ps) = False"
| "startswith (c # cs) (p # ps) = (c = p \<and> startswith cs ps)"

text \<open>\<^verbatim>\<open>sub in s\<close> for two strings.\<close>

fun str_contains :: "string \<Rightarrow> string \<Rightarrow> bool" where
  "str_contains sub [] = (sub = [])"
| "str_contains sub (c # cs) = (startswith (c # cs) sub \<or> str_contains sub cs)"

text \<open>
  \<^verbatim>\<open>needle in v\<close> for a string \<open>needle\<close> and a decoded value \<open>v\<close>: a substring test
  on a string, an element test on a list, a key test on a dict, and a \<open>TypeError\<close> on
  anything that is not iterable.
\<close>

fun py_in :: "string \<Rightarrow> json \<Rightarrow> pyerror + bool" where
  "py_in needle (JString s) = Inr (str_contains needle s)"
| "py_in needle (JArray xs) = Inr (JString needle \<in> set xs)"
| "py_in needle (JObject kvs) = Inr (needle \<in> set (map fst kvs))"
| "py_in needle v = Inl TypeError"

text \<open>\<^verbatim>\<open>isinstance(obj, dict) and key in obj\<close>.\<close>

fun dict_has :: "json \<Rightarrow> string \<Rightarrow> bool" where
  "dict_has (JObject kvs) k = (k \<in> set (map fst kvs))"
| "dict_has v k = False"

text \<open>\<^verbatim>\<open>obj[key]\<close> on a decoded value whose key is a string.\<close>

fun subscript :: "json \<Rightarrow> string \<Rightarrow> pyerror + json" where
  "subscript (JObject kvs) k = (case map_of kvs k of None \<Rightarrow> Inl KeyError | Some v \<Rightarrow> Inr v)"
| "subscript v k = Inl TypeError"

text \<open>\<^verbatim>\<open>obj.get(key, default)\<close>: only a dict has the method.\<close>

fun py_get :: "json \<Rightarrow> string \<Rightarrow> json \<Rightarrow> pyerror + json" where
  "py_get (JObject kvs) k d = Inr (case map_of kvs k of None \<Rightarrow> d | Some v \<Rightarrow> v)"
| "py_get v k d = Inl AttributeError"

subsection \<open>String operations\<close>

text \<open>\<^verbatim>\<open>s.split(sep)[0]\<close> for a non-empty separator: the text before its first occurrence.\<close>

fun split_head :: "string \<Rightarrow> string \<Rightarrow> string" where
  "split_head sep [] = []"
| "split_head sep (c # cs) = (if startswith (c # cs) sep then [] else c # split_head sep cs)"

text \<open>\<^verbatim>\<open>s.split(d)\<close> for a one-character separator.\<close>

fun split_char :: "char \<Rightarrow> string \<Rightarrow> string list" where
  "split_char d [] = [[]]"
| "split_char d (c # cs) =
     (if c = d then [] # split_char d cs
      else (case split_char d cs of [] \<Rightarrow> [[c]] | x # xs \<Rightarrow> (c # x) # xs))"

text \<open>\<^verbatim>\<open>d.join(xs)\<close>.\<close>

fun join :: "string \<Rightarrow> string list \<Rightarrow> string" where
  "join d [] = []"
| "join d [x] = x"
| "join d (x # y # ys) = x @ d @ join d (y # ys)"

text \<open>\<^verbatim>\<open>str(n)\<close> for an integer, as the f-string of line 99 formats the status code.\<close>

definition digit :: "nat \<Rightarrow> char" where
  "digit d = (''0123456789'' ! d)"

fun str_nat :: "nat \<Rightarrow> string" where
  "str_nat n = (if n < 10 then [digit n] else str_nat (n div 10) @ [digit (n mod 10)])"

definition str_int :: "int \<Rightarrow> string" where
  "str_int i = (if i < 0 then CHR ''-'' # str_nat (nat (- i)) else str_nat (nat i))"

declare str_nat.simps [simp del]

section \<open>The library functions the client calls\<close>

text \<open>
  \<^verbatim>\<open>json.loads\<close>, \<^verbatim>\<open>urllib.parse.urljoin\<close> and the formatting of a list or dict by
  an f-string belong to Python's library, not to the repository. The model takes them as
  parameters, so every general theorem below holds whatever they compute.
  \<^verbatim>\<open>json.loads\<close> returns a value, raises \<^verbatim>\<open>JSONDecodeError\<close>, or raises something
  else (a \<^verbatim>\<open>RecursionError\<close> on a payload nested too deeply).
\<close>

datatype loads_result = Loaded json | JSONDecodeError | LoadsRaises pyerror

record pylib =
  json_loads :: "string \<Rightarrow> loads_result"
  urljoin :: "string \<Rightarrow> string \<Rightarrow> pyerror + string"
  py_str :: "json \<Rightarrow> string"

subsection \<open>A transcription of \<^verbatim>\<open>urljoin\<close>\<close>

text \<open>
  For the claims that name concrete URLs the library's algorithm (CPython 3.12,
  \<^verbatim>\<open>urllib/parse.py\<close>) is written out for strings: \<^verbatim>\<open>urlsplit\<close>, \<^verbatim>\<open>urlparse\<close>,
  \<^verbatim>\<open>urlunparse\<close> and the path resolution of \<^verbatim>\<open>urljoin\<close>. The validation of a bracketed
  IP literal in the authority (\<^verbatim>\<open>_check_bracketed_netloc\<close>) is the parameter \<open>ip_ok\<close>;
  the NFKC check of a non-ASCII authority is left out, characters being bytes here.
\<close>

record parsed =
  p_scheme :: string
  p_netloc :: string
  p_path :: string
  p_params :: string
  p_query :: string
  p_fragment :: string

definition uses_relative :: "string list" where
  "uses_relative = ['''', ''ftp'', ''http'', ''gopher'', ''nntp'', ''imap'', ''wais'', ''file'',
     ''https'', ''shttp'', ''mms'', ''prospero'', ''rtsp'', ''rtsps'', ''rtspu'', ''sftp'',
     ''svn'', ''svn+ssh'', ''ws'', ''wss'']"

definition uses_netloc :: "string list" where
  "uses_netloc = ['''', ''ftp'', ''http'', ''gopher'', ''nntp'', ''telnet'', ''imap'', ''wais'',
     ''file'', ''mms'', ''https'', ''shttp'', ''snews'', ''prospero'', ''rtsp'', ''rtsps'',
     ''rtspu'', ''rsync'', ''svn'', ''svn+ssh'', ''sftp'', ''nfs'', ''git'', ''git+ssh'',
     ''ws'', ''wss'', ''itms-services'']"

definition uses_params :: "string list" where
  "uses_params = ['''', ''ftp'', ''hdl'', ''prospero'', ''http'', ''imap'', ''https'', ''shttp'',
     ''rtsp'', ''rtsps'', ''rtspu'', ''sip'', ''sips'', ''mms'', ''sftp'', ''tel'']"

definition lowercase :: string where
  "lowercase = ''abcdefghijklmnopqrstuvwxyz''"

definition uppercase :: string where
  "uppercase = ''ABCDEFGHIJKLMNOPQRSTUVWXYZ''"

definition scheme_chars :: string where
  "scheme_chars = lowercase @ uppercase @ ''0123456789+-.''"

definition lower :: "string \<Rightarrow> string" where
  "lower s = map (\<lambda>c. case map_of (zip uppercase lowercase) c of None \<Rightarrow> c | Some l \<Rightarrow> l) s"

text \<open>The leading C0 controls and spaces are stripped, then tab, CR and LF removed.\<close>

definition clean_url :: "string \<Rightarrow> string" where
  "clean_url url =
     filter (\<lambda>c. c \<notin> set [CHR 0x09, CHR 0x0D, CHR 0x0A])
       (dropWhile (\<lambda>c. of_char c \<le> (32::nat)) url)"

definition clean_scheme :: "string \<Rightarrow> string" where
  "clean_scheme s =
     filter (\<lambda>c. c \<notin> set [CHR 0x09, CHR 0x0D, CHR 0x0A])
       (rev (dropWhile (\<lambda>c. of_char c \<le> (32::nat))
         (rev (dropWhile (\<lambda>c. of_char c \<le> (32::nat)) s))))"

definition split_scheme :: "string \<Rightarrow> string \<Rightarrow> string \<times> string" where
  "split_scheme dflt url =
     (let pre = takeWhile (\<lambda>c. c \<noteq> CHR '':'') url in
      case pre of
        [] \<Rightarrow> (dflt, url)
      | c # _ \<Rightarrow>
          if CHR '':'' \<in> set url \<and> c \<in> set (lowercase @ uppercase)
             \<and> list_all (\<lambda>x. x \<in> set scheme_chars) pre
          then (lower pre, drop (length pre + 1) url)
          else (dflt, url))"

definition cut_at :: "char \<Rightarrow> string \<Rightarrow> string \<times> string" where
  \<comment> \<open>\<^verbatim>\<open>s.split(d, 1)\<close> when \<open>d\<close> occurs; the whole string and the empty one otherwise\<close>
  "cut_at d s = (takeWhile (\<lambda>c. c \<noteq> d) s, drop 1 (dropWhile (\<lambda>c. c \<noteq> d) s))"

definition urlsplit :: "(string \<Rightarrow> bool) \<Rightarrow> string \<Rightarrow> string \<Rightarrow> pyerror + parsed" where
  "urlsplit ip_ok url0 scheme0 =
     (let (scheme, url1) = split_scheme (clean_scheme scheme0) (clean_url url0);
          (netloc, url2) =
            (if take 2 url1 = ''//''
             then (takeWhile (\<lambda>c. c \<notin> set ''/?#'') (drop 2 url1),
                   dropWhile (\<lambda>c. c \<notin> set ''/?#'') (drop 2 url1))
             else ([], url1));
          (url3, fragment) = cut_at CHR ''#'' url2;
          (path, query) = cut_at CHR ''?'' url3
      in if (CHR ''['' \<in> set netloc) \<noteq> (CHR '']'' \<in> set netloc) then Inl ValueError
         else if CHR ''['' \<in> set netloc \<and> \<not> ip_ok netloc then Inl ValueError
         else Inr \<lparr>p_scheme = scheme, p_netloc = netloc, p_path = path, p_params = [],
                   p_query = query, p_fragment = fragment\<rparr>)"

definition splitparams :: "string \<Rightarrow> string \<times> string" where
  "splitparams url =
     (let dir = rev (dropWhile (\<lambda>c. c \<noteq> CHR ''/'') (rev url));
          leaf = rev (takeWhile (\<lambda>c. c \<noteq> CHR ''/'') (rev url))
      in if CHR '';'' \<in> set leaf
         then (dir @ takeWhile (\<lambda>c. c \<noteq> CHR '';'') leaf,
               drop 1 (dropWhile (\<lambda>c. c \<noteq> CHR '';'') leaf))
         else (url, []))"

definition urlparse :: "(string \<Rightarrow> bool) \<Rightarrow> string \<Rightarrow> string \<Rightarrow> pyerror + parsed" where
  "urlparse ip_ok url scheme0 =
     (case urlsplit ip_ok url scheme0 of
        Inl e \<Rightarrow> Inl e
      | Inr r \<Rightarrow>
          if p_scheme r \<in> set uses_params \<and> CHR '';'' \<in> set (p_path r)
          then Inr (r\<lparr>p_path := fst (splitparams (p_path r)),
                      p_params := snd (splitparams (p_path r))\<rparr>)
          else Inr r)"

definition urlunparse :: "parsed \<Rightarrow> string" where
  "urlunparse r =
     (let url0 = (if p_params r \<noteq> [] then p_path r @ '';'' @ p_params r else p_path r);
          url1 = (if p_netloc r \<noteq> []
                     \<or> (p_scheme r \<noteq> [] \<and> p_scheme r \<in> set uses_netloc \<and> take 2 url0 \<noteq> ''//'')
                  then ''//'' @ p_netloc r
                         @ (if url0 \<noteq> [] \<and> take 1 url0 \<noteq> ''/'' then ''/'' @ url0 else url0)
                  else url0);
          url2 = (if p_scheme r \<noteq> [] then p_scheme r @ '':'' @ url1 else url1);
          url3 = (if p_query r \<noteq> [] then url2 @ ''?'' @ p_query r else url2)
      in if p_fragment r \<noteq> [] then url3 @ ''#'' @ p_fragment r else url3)"

text \<open>The loop of \<^verbatim>\<open>urljoin\<close> over the path segments; \<open>acc\<close> is \<^verbatim>\<open>resolved_path\<close>.\<close>

fun resolve_segments :: "string list \<Rightarrow> string list \<Rightarrow> string list" where
  "resolve_segments acc [] = acc"
| "resolve_segments acc (seg # segs) =
     (if seg = ''..'' then resolve_segments (butlast acc) segs
      else if seg = ''.'' then resolve_segments acc segs
      else resolve_segments (acc @ [seg]) segs)"

text \<open>\<^verbatim>\<open>segments[1:-1] = filter(None, segments[1:-1])\<close>.\<close>

fun drop_empty_middle :: "string list \<Rightarrow> string list" where
  "drop_empty_middle [] = []"
| "drop_empty_middle [x] = [x]"
| "drop_empty_middle (x # y # ys) =
     x # filter (\<lambda>s. s \<noteq> []) (butlast (y # ys)) @ [last (y # ys)]"

definition urljoin_str :: "(string \<Rightarrow> bool) \<Rightarrow> string \<Rightarrow> string \<Rightarrow> pyerror + string" where
  "urljoin_str ip_ok base url =
     (if base = [] then Inr url
      else if url = [] then Inr base
      else case urlparse ip_ok base [] of
        Inl e \<Rightarrow> Inl e
      | Inr b \<Rightarrow>
         (case urlparse ip_ok url (p_scheme b) of
            Inl e \<Rightarrow> Inl e
          | Inr u \<Rightarrow>
             if p_scheme u \<noteq> p_scheme b \<or> p_scheme u \<notin> set uses_relative then Inr url
             else if p_scheme u \<in> set uses_netloc \<and> p_netloc u \<noteq> [] then Inr (urlunparse u)
             else
               let netloc = (if p_scheme u \<in> set uses_netloc then p_netloc b else p_netloc u) in
               if p_path u = [] \<and> p_params u = []
               then Inr (urlunparse (u\<lparr>p_netloc := netloc, p_path := p_path b,
                           p_params := p_params b,
                           p_query := (if p_query u = [] then p_query b else p_query u)\<rparr>))
               else
                 let parts = split_char CHR ''/'' (p_path b);
                     base_parts = (if last parts \<noteq> [] then butlast parts else parts);
                     segments = (if take 1 (p_path u) = ''/'' then split_char CHR ''/'' (p_path u)
                                 else drop_empty_middle
                                        (base_parts @ split_char CHR ''/'' (p_path u)));
                     resolved = resolve_segments [] segments
                                  @ (if last segments \<in> {''.'', ''..''} then [[]] else []);
                     joined = join ''/'' resolved
                 in Inr (urlunparse (u\<lparr>p_netloc := netloc,
                           p_path := (if joined = [] then ''/'' else joined)\<rparr>))))"

section \<open>The client\<close>

text \<open>
  A Pending Request is the dict \<^verbatim>\<open>{"event": evt}\<close> of line 88, to which the listener
  adds \<^verbatim>\<open>"response"\<close>. It is shared: the table \<^verbatim>\<open>_pending\<close> and the local variable
  \<^verbatim>\<open>holder\<close> of \<^verbatim>\<open>_rpc\<close> refer to the same object, and the listener writes to it after
  it has taken it out of the table. So the objects live in a store (\<open>holders\<close>, addressed
  by position, a new object going to the end) and the table maps a correlation id to an
  address.
\<close>

record holder =
  event_set :: bool
  response :: "json option"

text \<open>
  The fields of \<^verbatim>\<open>MCPClient\<close>, and what the client does to the world: \<open>listening\<close> says
  that the listener thread is running, \<open>posts\<close> lists the HTTP POSTs sent (URL and JSON
  body) and \<open>issued\<close> the correlation ids drawn from \<^verbatim>\<open>uuid.uuid4()\<close>.
\<close>

record client =
  base_sse_url :: string
  function_key :: "string option"
  timeout :: rat
  write_url :: "string option"
  pending :: "string \<rightharpoonup> nat"
  holders :: "holder list"
  listening :: bool
  posts :: "(string \<times> json) list"
  issued :: "string list"

definition init :: "string \<Rightarrow> string option \<Rightarrow> rat \<Rightarrow> client" where
  "init url key t =
     \<lparr>base_sse_url = url, function_key = key, timeout = t, write_url = None,
      pending = Map.empty, holders = [], listening = False, posts = [], issued = []\<rparr>"

subsection \<open>\<^verbatim>\<open>_qualify_endpoint\<close> (lines 75 to 81)\<close>

text \<open>
  \<^verbatim>\<open>urljoin(base + "/", endpoint)\<close> with an \<open>endpoint\<close> that need not be a string: the
  first argument is never empty here, so a falsy second argument gives the first one back,
  and any other value that is not a string is refused by the library's argument check.
\<close>

definition urljoin_value :: "pylib \<Rightarrow> string \<Rightarrow> json \<Rightarrow> pyerror + string" where
  "urljoin_value lib base v =
     (if \<not> truthy v then Inr base
      else case v of JString s \<Rightarrow> urljoin lib base s | _ \<Rightarrow> Inl TypeError)"

definition format_value :: "pylib \<Rightarrow> json \<Rightarrow> string" where
  "format_value lib v = (case v of JString s \<Rightarrow> s | _ \<Rightarrow> py_str lib v)"

text \<open>
  The argument is the payload of an \<^verbatim>\<open>endpoint\<close> event (a string) or the \<^verbatim>\<open>endpoint\<close>
  member of a decoded object (any value).
\<close>

definition qualify_endpoint :: "pylib \<Rightarrow> client \<Rightarrow> json \<Rightarrow> pyerror + string" where
  "qualify_endpoint lib c endpoint =
     (let base = split_head ''/sse'' (base_sse_url c) in
      case function_key c of
        None \<Rightarrow> urljoin_value lib (base @ ''/'') endpoint
      | Some key \<Rightarrow>
          if key = [] then urljoin_value lib (base @ ''/'') endpoint
          else (case py_in ''code='' endpoint of
                  Inl e \<Rightarrow> Inl e
                | Inr True \<Rightarrow> urljoin_value lib (base @ ''/'') endpoint
                | Inr False \<Rightarrow>
                    (case py_in ''?'' endpoint of
                       Inl e \<Rightarrow> Inl e
                     | Inr q \<Rightarrow>
                         urljoin_value lib (base @ ''/'')
                           (JString (format_value lib endpoint @ (if q then ''&'' else ''?'')
                                       @ ''code='' @ key)))))"

subsection \<open>\<^verbatim>\<open>_handle_sse_event\<close> (lines 54 to 73)\<close>

text \<open>
  \<^verbatim>\<open>self._pending.pop(key, None)\<close> with a decoded value as key. On an empty dict
  CPython returns the default at once, without hashing the key. Otherwise the key is
  hashed first, which a list or a dict refuses with \<open>TypeError\<close>; and the keys of the
  table being strings, only a string can be found.
\<close>

definition pending_pop :: "json \<Rightarrow> client \<Rightarrow> pyerror + (nat option \<times> client)" where
  "pending_pop key c =
     (if pending c = Map.empty then Inr (None, c)
      else case key of
        JString k \<Rightarrow> Inr (pending c k, c\<lparr>pending := (pending c)(k := None)\<rparr>)
      | JArray xs \<Rightarrow> Inl TypeError
      | JObject kvs \<Rightarrow> Inl TypeError
      | _ \<Rightarrow> Inr (None, c))"

definition resolve :: "nat \<Rightarrow> json \<Rightarrow> client \<Rightarrow> client" where
  \<comment> \<open>lines 72 and 73: store the response in the waiter, then set its event\<close>
  "resolve h obj c =
     c\<lparr>holders := (holders c)[h := (holders c ! h)\<lparr>response := Some obj, event_set := True\<rparr>]\<rparr>"

definition handle_sse_event ::
  "pylib \<Rightarrow> string option \<Rightarrow> string \<Rightarrow> client \<Rightarrow> (pyerror + unit) \<times> client" where
  "handle_sse_event lib event data c =
     (if event = Some ''endpoint'' \<and> data \<noteq> [] \<and> write_url c = None
      then (case qualify_endpoint lib c (JString data) of
              Inl e \<Rightarrow> (Inl e, c)
            | Inr u \<Rightarrow> (Inr (), c\<lparr>write_url := Some u\<rparr>))
      else case json_loads lib data of
        JSONDecodeError \<Rightarrow> (Inr (), c)
      | LoadsRaises e \<Rightarrow> (Inl e, c)
      | Loaded obj \<Rightarrow>
          if write_url c = None \<and> dict_has obj ''endpoint''
          then (case subscript obj ''endpoint'' of
                  Inl e \<Rightarrow> (Inl e, c)
                | Inr ep \<Rightarrow>
                   (case qualify_endpoint lib c ep of
                      Inl e \<Rightarrow> (Inl e, c)
                    | Inr u \<Rightarrow> (Inr (), c\<lparr>write_url := Some u\<rparr>)))
          else if dict_has obj ''id''
          then (case subscript obj ''id'' of
                  Inl e \<Rightarrow> (Inl e, c)
                | Inr k \<Rightarrow>
                   (case pending_pop k c of
                      Inl e \<Rightarrow> (Inl e, c)
                    | Inr (None, c') \<Rightarrow> (Inr (), c')
                    | Inr (Some h, c') \<Rightarrow> (Inr (), resolve h obj c')))
          else (Inr (), c))"

subsection \<open>The listener thread\<close>

text \<open>
  The thread started by \<^verbatim>\<open>connect\<close> frames the stream and calls \<^verbatim>\<open>_handle_sse_event\<close>
  on each event (line 37). An exception of the handler is not caught in \<^verbatim>\<open>_listen\<close>: it
  ends the thread, and no later event is dispatched.
\<close>

type_synonym sse_event = "string option \<times> string"

definition listener_step :: "pylib \<Rightarrow> client \<Rightarrow> sse_event \<Rightarrow> client" where
  "listener_step lib c e =
     (if listening c
      then (case handle_sse_event lib (fst e) (snd e) c of
              (Inl err, c') \<Rightarrow> c'\<lparr>listening := False\<rparr>
            | (Inr u, c') \<Rightarrow> c')
      else c)"

definition listener_run :: "pylib \<Rightarrow> sse_event list \<Rightarrow> client \<Rightarrow> client" where
  "listener_run lib evs c = foldl (listener_step lib) c evs"

subsection \<open>\<^verbatim>\<open>_rpc\<close> (lines 83 to 107)\<close>

text \<open>
  \<^verbatim>\<open>_rpc\<close> runs on the caller's thread while the listener runs on its own. What the
  caller cannot decide is an input: the id \<^verbatim>\<open>uuid4\<close> returns, the outcome of the POST,
  and the events the listener dispatches while the POST is under way (\<open>during_post\<close>, from
  the registration on), while \<^verbatim>\<open>evt.wait\<close> blocks, up to its return (\<open>during_wait\<close>), and
  between a wait that timed out and the removal at line 102 (\<open>after_timeout\<close>).
\<close>

datatype post_outcome = PostRaises pyerror | PostReturns int string

record rpc_env =
  uuid4 :: string
  during_post :: "sse_event list"
  post_result :: post_outcome
  during_wait :: "sse_event list"
  after_timeout :: "sse_event list"

definition rpc_register :: "string \<Rightarrow> client \<Rightarrow> client" where
  \<comment> \<open>lines 86 to 90; the new holder is at address \<open>length (holders c)\<close>\<close>
  "rpc_register rid c =
     c\<lparr>issued := issued c @ [rid],
       holders := holders c @ [\<lparr>event_set = False, response = None\<rparr>],
       pending := (pending c)(rid \<mapsto> length (holders c))\<rparr>"

definition rpc_payload :: "string \<Rightarrow> string \<Rightarrow> json \<Rightarrow> json" where
  "rpc_payload rid method params =
     JObject [(''jsonrpc'', JString ''2.0''), (''id'', JString rid),
              (''method'', JString method),
              (''params'', if truthy params then params else JObject [])]"

definition rpc_post :: "string \<Rightarrow> json \<Rightarrow> client \<Rightarrow> client" where
  "rpc_post url payload c = c\<lparr>posts := posts c @ [(url, payload)]\<rparr>"

definition rpc_forget :: "string \<Rightarrow> client \<Rightarrow> client" where
  \<comment> \<open>lines 101 and 102\<close>
  "rpc_forget rid c = c\<lparr>pending := (pending c)(rid := None)\<rparr>"

definition rpc_result :: "nat \<Rightarrow> client \<Rightarrow> pyerror + json" where
  \<comment> \<open>lines 104 to 107\<close>
  "rpc_result h c =
     (case response (holders c ! h) of
        None \<Rightarrow> Inl KeyError
      | Some result \<Rightarrow>
         (case py_in ''error'' result of
            Inl e \<Rightarrow> Inl e
          | Inr True \<Rightarrow>
              (case subscript result ''error'' of
                 Inl e \<Rightarrow> Inl e
               | Inr v \<Rightarrow> Inl (MCPClientError v))
          | Inr False \<Rightarrow> Inr result))"

definition not_connected :: pyerror where
  \<comment> \<open>the exception of line 85\<close>
  "not_connected = MCPClientError (JString ''Not connected or write endpoint not discovered'')"

definition rpc ::
  "pylib \<Rightarrow> rpc_env \<Rightarrow> string \<Rightarrow> json \<Rightarrow> client \<Rightarrow> (pyerror + json) \<times> client" where
  "rpc lib env method params c =
     (case write_url c of
        None \<Rightarrow> (Inl not_connected, c)
      | Some url \<Rightarrow>
          let rid = uuid4 env;
              h = length (holders c);
              c1 = rpc_register rid c;
              c2 = listener_run lib (during_post env)
                     (rpc_post url (rpc_payload rid method params) c1)
          in case post_result env of
               PostRaises e \<Rightarrow> (Inl e, c2)
             | PostReturns status body \<Rightarrow>
                 if status \<ge> 400
                 then (Inl (MCPClientError (JString (''HTTP '' @ str_int status @ '': '' @ body))),
                       c2)
                 else
                   let c3 = listener_run lib (during_wait env) c2 in
                   if \<not> event_set (holders c3 ! h)
                   then (Inl (MCPClientError
                                (JString (''Timeout waiting for response to '' @ method))),
                         rpc_forget rid (listener_run lib (after_timeout env) c3))
                   else (rpc_result h c3, c3))"

subsection \<open>The wrappers of \<^verbatim>\<open>_rpc\<close> (lines 109 to 138)\<close>

definition initialize ::
  "pylib \<Rightarrow> rpc_env \<Rightarrow> string \<Rightarrow> string \<Rightarrow> string \<Rightarrow> client \<Rightarrow> (pyerror + json) \<times> client"
  where
  "initialize lib env protocol_version client_name client_version c =
     rpc lib env ''initialize''
       (JObject [(''protocolVersion'', JString protocol_version),
                 (''capabilities'', JObject []),
                 (''client'', JObject [(''name'', JString client_name),
                                       (''version'', JString client_version)])]) c"

text \<open>\<^verbatim>\<open>resp.get("result", {}).get(key, [])\<close>.\<close>

definition result_member :: "json \<Rightarrow> string \<Rightarrow> pyerror + json" where
  "result_member resp key =
     (case py_get resp ''result'' (JObject []) of
        Inl e \<Rightarrow> Inl e
      | Inr r \<Rightarrow> py_get r key (JArray []))"

definition list_tools :: "pylib \<Rightarrow> rpc_env \<Rightarrow> client \<Rightarrow> (pyerror + json) \<times> client" where
  "list_tools lib env c =
     (case rpc lib env ''tools/list'' (JObject []) c of
        (Inl e, c') \<Rightarrow> (Inl e, c')
      | (Inr resp, c') \<Rightarrow> (result_member resp ''tools'', c'))"

definition call_tool ::
  "pylib \<Rightarrow> rpc_env \<Rightarrow> string \<Rightarrow> json \<Rightarrow> client \<Rightarrow> (pyerror + json) \<times> client" where
  "call_tool lib env name arguments c =
     (case rpc lib env ''tools/call''
             (JObject [(''name'', JString name), (''arguments'', arguments)]) c of
        (Inl e, c') \<Rightarrow> (Inl e, c')
      | (Inr resp, c') \<Rightarrow> (result_member resp ''content'', c'))"

text \<open>What a \<^verbatim>\<open>for\<close> loop iterates over: the items of a list, the characters of a string,
  the keys of a dict; nothing else among the decoded values is iterable.\<close>

fun py_iter :: "json \<Rightarrow> pyerror + json list" where
  "py_iter (JArray xs) = Inr xs"
| "py_iter (JString s) = Inr (map (\<lambda>ch. JString [ch]) s)"
| "py_iter (JObject kvs) = Inr (map JString (remdups (map fst kvs)))"
| "py_iter v = Inl TypeError"

text \<open>The loop of \<^verbatim>\<open>search\<close>: the \<^verbatim>\<open>data\<close> of the first block of type \<^verbatim>\<open>json\<close>, and
  the whole content when there is none.\<close>

fun first_json_block :: "json \<Rightarrow> json list \<Rightarrow> pyerror + json" where
  "first_json_block content [] = Inr content"
| "first_json_block content (block # blocks) =
     (case py_get block ''type'' JNull of
        Inl e \<Rightarrow> Inl e
      | Inr t \<Rightarrow>
          if t = JString ''json'' then py_get block ''data'' JNull
          else first_json_block content blocks)"

definition tool_json ::
  "pylib \<Rightarrow> rpc_env \<Rightarrow> string \<Rightarrow> json \<Rightarrow> client \<Rightarrow> (pyerror + json) \<times> client" where
  "tool_json lib env name arguments c =
     (case call_tool lib env name arguments c of
        (Inl e, c') \<Rightarrow> (Inl e, c')
      | (Inr content, c') \<Rightarrow>
          (case py_iter content of
             Inl e \<Rightarrow> (Inl e, c')
           | Inr blocks \<Rightarrow> (first_json_block content blocks, c')))"

definition search :: "pylib \<Rightarrow> rpc_env \<Rightarrow> string \<Rightarrow> client \<Rightarrow> (pyerror + json) \<times> client" where
  "search lib env query c = tool_json lib env ''search'' (JObject [(''query'', JString query)]) c"

definition search_by_doc_id ::
  "pylib \<Rightarrow> rpc_env \<Rightarrow> string \<Rightarrow> client \<Rightarrow> (pyerror + json) \<times> client" where
  "search_by_doc_id lib env doc_id c =
     tool_json lib env ''search_by_doc_id'' (JObject [(''doc_id'', JString doc_id)]) c"

subsection \<open>\<^verbatim>\<open>connect\<close> (lines 19 to 52)\<close>

text \<open>
  \<^verbatim>\<open>connect\<close> starts the listener and polls \<^verbatim>\<open>write_url\<close>. Each evaluation of the loop
  condition at line 49 is one element of \<open>polls\<close>: the events the listener has dispatched
  since the evaluation before, each with the time of its dispatch, and the value
  \<^verbatim>\<open>time.time()\<close> returns in it. \<open>started\<close> is the clock read at line 48 and \<open>before_check\<close>
  holds the events dispatched between the end of the loop and the test at line 51. Times
  are rational numbers of seconds; the rounding of the floating-point subtraction at line
  49 is not modelled. A list of polls that ends while the loop still runs gives \<open>None\<close>:
  the model was not told how the run goes on.
\<close>

type_synonym timed_event = "rat \<times> sse_event"

record connect_env =
  started :: rat
  polls :: "(timed_event list \<times> rat) list"
  before_check :: "timed_event list"

fun connect_loop ::
  "pylib \<Rightarrow> rat \<Rightarrow> rat \<Rightarrow> (timed_event list \<times> rat) list \<Rightarrow> client \<Rightarrow> client option" where
  "connect_loop lib handshake_timeout start [] c = None"
| "connect_loop lib handshake_timeout start ((evs, now) # rest) c =
     (let c' = listener_run lib (map snd evs) c in
      if write_url c' = None \<and> now - start < handshake_timeout
      then connect_loop lib handshake_timeout start rest c'
      else Some c')"

definition connect ::
  "pylib \<Rightarrow> connect_env \<Rightarrow> rat \<Rightarrow> client \<Rightarrow> ((pyerror + unit) \<times> client) option" where
  "connect lib env handshake_timeout c =
     (case connect_loop lib handshake_timeout (started env) (polls env) (c\<lparr>listening := True\<rparr>) of
        None \<Rightarrow> None
      | Some c1 \<Rightarrow>
          let c2 = listener_run lib (map snd (before_check env)) c1 in
          if write_url c2 = None
          then Some (Inl (TimeoutError
                       ''Did not receive session write endpoint via SSE handshake''), c2)
          else Some (Inr (), c2))"

section \<open>Notions used to state the properties\<close>

text \<open>
  Every address in the table is the address of an allocated holder. It holds in the
  initial state and every operation keeps it.
\<close>

definition table_ok :: "client \<Rightarrow> bool" where
  "table_ok c = (\<forall>k h. pending c k = Some h \<longrightarrow> h < length (holders c))"

text \<open>
  An event answers the call \<open>rid\<close> when its payload decodes to an object whose \<^verbatim>\<open>id\<close> is
  the string \<open>rid\<close>.
\<close>

definition answers :: "pylib \<Rightarrow> string \<Rightarrow> sse_event \<Rightarrow> bool" where
  "answers lib rid e =
     (case json_loads lib (snd e) of
        Loaded obj \<Rightarrow> dict_has obj ''id'' \<and> subscript obj ''id'' = Inr (JString rid)
      | _ \<Rightarrow> False)"

text \<open>
  An event is fatal when, the write endpoint being known and the table not empty, the
  handler raises on it and so ends the listener: the decoder raises something other than
  \<^verbatim>\<open>JSONDecodeError\<close>, or the \<^verbatim>\<open>id\<close> of the object is a list or a dict. (While a call
  waits the table holds its entry, so it is not empty.)
\<close>

definition fatal :: "pylib \<Rightarrow> sse_event \<Rightarrow> bool" where
  "fatal lib e =
     (case json_loads lib (snd e) of
        JSONDecodeError \<Rightarrow> False
      | LoadsRaises x \<Rightarrow> True
      | Loaded obj \<Rightarrow>
         (case subscript obj ''id'' of
            Inr (JArray xs) \<Rightarrow> True
          | Inr (JObject kvs) \<Rightarrow> True
          | _ \<Rightarrow> False))"

definition bystander :: "pylib \<Rightarrow> string \<Rightarrow> sse_event \<Rightarrow> bool" where
  "bystander lib rid e = (\<not> answers lib rid e \<and> \<not> fatal lib e)"

text \<open>
  The moments of a call. \<open>call_moment lib env method params url c n\<close> is the client
  after \<^verbatim>\<open>_rpc\<close> has registered the call and sent the POST (lines 86 to 97) and the
  listener has dispatched the first \<open>n\<close> of the events that arrive before the wait ends.
\<close>

definition call_moment ::
  "pylib \<Rightarrow> rpc_env \<Rightarrow> string \<Rightarrow> json \<Rightarrow> string \<Rightarrow> client \<Rightarrow> nat \<Rightarrow> client" where
  "call_moment lib env method params url c n =
     listener_run lib (take n (during_post env @ during_wait env))
       (rpc_post url (rpc_payload (uuid4 env) method params) (rpc_register (uuid4 env) c))"

text \<open>The time at which the write endpoint is first recorded, in a run of timed events.\<close>

fun first_discovery :: "pylib \<Rightarrow> client \<Rightarrow> timed_event list \<Rightarrow> rat option" where
  "first_discovery lib c [] = None"
| "first_discovery lib c ((t, e) # rest) =
     (if write_url c = None \<and> write_url (listener_step lib c e) \<noteq> None then Some t
      else first_discovery lib (listener_step lib c e) rest)"

text \<open>All the events of a run of \<^verbatim>\<open>connect\<close>, in order.\<close>

definition connect_events :: "connect_env \<Rightarrow> timed_event list" where
  "connect_events env = concat (map fst (polls env)) @ before_check env"

text \<open>
  A library instance for the examples: \<^verbatim>\<open>json.loads\<close> decodes the payloads listed in a
  table and rejects every other text, \<^verbatim>\<open>urljoin\<close> is the transcription above. No example
  formats a list or a dict.
\<close>

definition example_lib :: "(string \<times> json) list \<Rightarrow> pylib" where
  "example_lib table =
     \<lparr>json_loads = (\<lambda>s. case map_of table s of None \<Rightarrow> JSONDecodeError | Some v \<Rightarrow> Loaded v),
      urljoin = urljoin_str (\<lambda>host. True),
      py_str = (\<lambda>v. [])\<rparr>"

subsection \<open>Data of the examples\<close>

text \<open>
  A correlation id, and three payloads with the values they decode to: a reply to
  \<^verbatim>\<open>tools/list\<close>, an error reply, and a message that carries an \<^verbatim>\<open>endpoint\<close> member.
\<close>

definition example_rid :: string where
  "example_rid = ''0f8fad5b-d9cb-469f-a165-70867728950e''"

definition tools_payload :: json where
  "tools_payload = JArray [JObject [(''name'', JString ''search'')]]"

definition tools_reply_text :: string where
  \<open>tools_reply_text =
     ''{"jsonrpc":"2.0","id":"0f8fad5b-d9cb-469f-a165-70867728950e","result":{"tools":[{"name":"search"}]}}''\<close>

definition tools_reply :: json where
  "tools_reply =
     JObject [(''jsonrpc'', JString ''2.0''), (''id'', JString example_rid),
              (''result'', JObject [(''tools'', tools_payload)])]"

definition error_payload :: json where
  "error_payload = JObject [(''code'', JInt (- 32601)), (''message'', JString ''not found'')]"

definition error_reply_text :: string where
  \<open>error_reply_text =
     ''{"id":"0f8fad5b-d9cb-469f-a165-70867728950e","error":{"code":-32601,"message":"not found"}}''\<close>

definition error_reply :: json where
  "error_reply = JObject [(''id'', JString example_rid), (''error'', error_payload)]"

definition endpoint_message_text :: string where
  \<open>endpoint_message_text = ''{"endpoint":"/other?sessionId=7"}''\<close>

definition endpoint_message :: json where
  "endpoint_message = JObject [(''endpoint'', JString ''/other?sessionId=7'')]"

text \<open>
  Two more payloads: an error reply whose \<^verbatim>\<open>error\<close> member is the text of the client's
  own timeout message, and an object whose \<^verbatim>\<open>id\<close> is a list.
\<close>

definition mimic_reply_text :: string where
  \<open>mimic_reply_text =
     ''{"id":"0f8fad5b-d9cb-469f-a165-70867728950e","error":"Timeout waiting for response to tools/list"}''\<close>

definition mimic_reply :: json where
  "mimic_reply =
     JObject [(''id'', JString example_rid),
              (''error'', JString ''Timeout waiting for response to tools/list'')]"

definition list_id_text :: string where
  \<open>list_id_text = ''{"id":[]}''\<close>

definition list_id_message :: json where
  "list_id_message = JObject [(''id'', JArray [])]"

definition example_table :: "(string \<times> json) list" where
  "example_table =
     [(tools_reply_text, tools_reply), (error_reply_text, error_reply),
      (endpoint_message_text, endpoint_message), (mimic_reply_text, mimic_reply),
      (list_id_text, list_id_message)]"

text \<open>
  A payload that is not valid JSON and that \<^verbatim>\<open>json.loads\<close> does not reject with
  \<^verbatim>\<open>JSONDecodeError\<close>: two thousand opening brackets, on which CPython's decoder raises
  \<^verbatim>\<open>RecursionError\<close>. \<open>depth_limited\<close> adds that behaviour to a library instance.
\<close>

definition deep_text :: string where
  "deep_text = replicate 2000 CHR ''[''"

definition depth_limited :: "pylib \<Rightarrow> pylib" where
  "depth_limited lib =
     lib\<lparr>json_loads := (\<lambda>s. if s = deep_text then LoadsRaises RecursionError
                              else json_loads lib s)\<rparr>"


text \<open>A client whose listener runs and whose write endpoint is known.\<close>

definition connected :: client where
  "connected =
     (init ''https://host/sse'' None 30)
       \<lparr>write_url := Some ''https://host/messages?sessionId=42'', listening := True\<rparr>"

text \<open>
  Four runs of \<^verbatim>\<open>_rpc\<close>: the reply arrives during the wait; an error reply arrives; the
  POST succeeds and nothing arrives; the POST is refused with status 404.
\<close>

definition answered_call :: rpc_env where
  "answered_call =
     \<lparr>uuid4 = example_rid, during_post = [], post_result = PostReturns 200 [],
      during_wait = [(None, '': keep-alive''), (None, tools_reply_text)], after_timeout = []\<rparr>"

definition failed_call :: rpc_env where
  "failed_call =
     \<lparr>uuid4 = example_rid, during_post = [], post_result = PostReturns 200 [],
      during_wait = [(None, error_reply_text)], after_timeout = []\<rparr>"

definition silent_call :: rpc_env where
  "silent_call =
     \<lparr>uuid4 = example_rid, during_post = [], post_result = PostReturns 200 [],
      during_wait = [(None, '': keep-alive'')], after_timeout = []\<rparr>"

definition refused_call :: rpc_env where
  "refused_call =
     \<lparr>uuid4 = example_rid, during_post = [(None, '': keep-alive'')],
      post_result = PostReturns 404 ''Not Found'', during_wait = [], after_timeout = []\<rparr>"

text \<open>
  Two more runs of \<^verbatim>\<open>_rpc\<close>: the POST returns status 304 and the reply arrives; the POST
  succeeds and the reply is the error that mimics the timeout message.
\<close>

definition redirected_call :: rpc_env where
  "redirected_call =
     \<lparr>uuid4 = example_rid, during_post = [], post_result = PostReturns 304 [],
      during_wait = [(None, tools_reply_text)], after_timeout = []\<rparr>"

definition mimic_call :: rpc_env where
  "mimic_call =
     \<lparr>uuid4 = example_rid, during_post = [], post_result = PostReturns 200 [],
      during_wait = [(None, mimic_reply_text)], after_timeout = []\<rparr>"

text \<open>
  Three runs of \<^verbatim>\<open>connect\<close> with a handshake timeout of 20 seconds, the clock started
  at 0. In \<open>late_handshake\<close> the loop tests at 19.98 s, the \<^verbatim>\<open>endpoint\<close> event is
  dispatched at 20.01 s and the loop tests again at 20.03 s. In \<open>prompt_handshake\<close> the
  event is dispatched at 0.02 s, before the first test at 0.05 s. In \<open>mute_handshake\<close>
  nothing is dispatched and the second test is made at 20.03 s.
\<close>

definition late_handshake :: connect_env where
  "late_handshake =
     \<lparr>started = 0,
      polls = [([], 1998 / 100),
               ([(2001 / 100, (Some ''endpoint'', ''/messages?sessionId=42''))], 2003 / 100)],
      before_check = []\<rparr>"

definition prompt_handshake :: connect_env where
  "prompt_handshake =
     \<lparr>started = 0,
      polls = [([(2 / 100, (Some ''endpoint'', ''/messages?sessionId=42''))], 5 / 100)],
      before_check = []\<rparr>"

definition mute_handshake :: connect_env where
  "mute_handshake =
     \<lparr>started = 0, polls = [([], 1998 / 100), ([], 2003 / 100)], before_check = []\<rparr>"

text \<open>
  A fourth run of \<^verbatim>\<open>connect\<close>: before the \<^verbatim>\<open>endpoint\<close> event the stream carries
  the object whose \<^verbatim>\<open>id\<close> is a list.
\<close>

definition noisy_handshake :: connect_env where
  "noisy_handshake =
     \<lparr>started = 0,
      polls = [([(1 / 100, (None, list_id_text)),
                 (2 / 100, (Some ''endpoint'', ''/messages?sessionId=42''))], 5 / 100)],
      before_check = []\<rparr>"

text \<open>
  The two states of a call between its registration and its end, as seen from the table.
  In \<open>waiting rid h c\<close> the table maps \<open>rid\<close>, and no other id, to the holder at \<open>h\<close>,
  which has no response and whose event is not set. In \<open>resolved rid h obj c\<close> the id is
  gone from the table, nothing in the table refers to \<open>h\<close>, and the holder has the
  response \<open>obj\<close> with its event set.
\<close>

definition waiting :: "string \<Rightarrow> nat \<Rightarrow> client \<Rightarrow> bool" where
  "waiting rid h c =
     (table_ok c \<and> write_url c \<noteq> None \<and> pending c rid = Some h
      \<and> (\<forall>k. pending c k = Some h \<longrightarrow> k = rid)
      \<and> \<not> event_set (holders c ! h) \<and> response (holders c ! h) = None)"

definition resolved :: "string \<Rightarrow> nat \<Rightarrow> json \<Rightarrow> client \<Rightarrow> bool" where
  "resolved rid h obj c =
     (table_ok c \<and> write_url c \<noteq> None \<and> pending c rid = None
      \<and> (\<forall>k. pending c k \<noteq> Some h) \<and> h < length (holders c)
      \<and> event_set (holders c ! h) \<and> response (holders c ! h) = Some obj)"

section \<open>The handler and the listener, step by step\<close>

text \<open>Once the write endpoint is known the two discovery branches of the handler are dead.\<close>

text \<open>
  \<^verbatim>\<open>pop\<close> by kind of key. For a string the emptiness test changes nothing: nothing is
  found in an empty table, and removing an absent key leaves the table as it is.
\<close>

lemma pop_absent: "pending c k = None \<Longrightarrow> c\<lparr>pending := (pending c)(k := None)\<rparr> = c"
  by (simp add: fun_upd_idem)

lemma pending_pop_simps [simp]:
  "pending_pop (JString k) c = Inr (pending c k, c\<lparr>pending := (pending c)(k := None)\<rparr>)"
  "pending_pop JNull c = Inr (None, c)"
  "pending_pop (JBool b) c = Inr (None, c)"
  "pending_pop (JInt i) c = Inr (None, c)"
  "pending_pop (JFloat r) c = Inr (None, c)"
  "pending_pop (JArray xs) c = (if pending c = Map.empty then Inr (None, c) else Inl TypeError)"
  "pending_pop (JObject kvs) c = (if pending c = Map.empty then Inr (None, c) else Inl TypeError)"
  by (simp_all add: pending_pop_def pop_absent)

lemma pending_pop_cases:
  assumes "pending_pop key c = r"
  obtains (string) k where "key = JString k"
      and "r = Inr (pending c k, c\<lparr>pending := (pending c)(k := None)\<rparr>)"
    | (unhashable) "r = Inl TypeError"
    | (other) "r = Inr (None, c)"
  using assms by (cases key) (auto split: if_splits)

lemma handle_known:
  "write_url c = Some u \<Longrightarrow>
   handle_sse_event lib ev data c =
     (case json_loads lib data of
        JSONDecodeError \<Rightarrow> (Inr (), c)
      | LoadsRaises e \<Rightarrow> (Inl e, c)
      | Loaded obj \<Rightarrow>
          if dict_has obj ''id''
          then (case subscript obj ''id'' of
                  Inl e \<Rightarrow> (Inl e, c)
                | Inr k \<Rightarrow>
                   (case pending_pop k c of
                      Inl e \<Rightarrow> (Inl e, c)
                    | Inr (None, c') \<Rightarrow> (Inr (), c')
                    | Inr (Some h, c') \<Rightarrow> (Inr (), resolve h obj c')))
          else (Inr (), c))"
  by (simp add: handle_sse_event_def split: loads_result.splits)

lemma subscript_Inr_has: "subscript obj k = Inr v \<Longrightarrow> dict_has obj k"
  by (cases obj) (auto split: option.splits dest: map_of_SomeD intro: rev_image_eqI)

lemma dict_has_subscript: "dict_has obj k \<Longrightarrow> \<exists>v. subscript obj k = Inr v"
  by (cases obj) (auto split: option.splits simp: map_of_eq_None_iff)

lemma subscript_cases:
  obtains (absent) x where "subscript obj k = Inl x" and "\<not> dict_has obj k"
  | (present) v where "subscript obj k = Inr v" and "dict_has obj k"
proof (cases "subscript obj k")
  case (Inl x)
  moreover from Inl have "\<not> dict_has obj k" using dict_has_subscript [of obj k] by auto
  ultimately show thesis by (rule absent)
next
  case (Inr v)
  moreover from Inr have "dict_has obj k" by (rule subscript_Inr_has)
  ultimately show thesis by (rule present)
qed

text \<open>The predicate \<open>fatal\<close> says what it is meant to say.\<close>

lemma fatal_iff_raises:
  assumes "write_url c = Some u" and "pending c \<noteq> Map.empty"
  shows "isl (fst (handle_sse_event lib ev data c)) = fatal lib (ev, data)"
proof (cases "json_loads lib data")
  case (Loaded obj)
  show ?thesis
  proof (cases obj "''id''" rule: subscript_cases)
    case (absent x)
    then show ?thesis using Loaded by (simp add: handle_known [OF assms(1)] fatal_def)
  next
    case (present k)
    then show ?thesis using Loaded assms(2)
      by (cases k)
         (auto simp: handle_known [OF assms(1)] fatal_def split: option.splits)
  qed
qed (simp_all add: handle_known [OF assms(1)] fatal_def)

lemma step_not_listening: "\<not> listening c \<Longrightarrow> listener_step lib c e = c"
  by (simp add: listener_step_def)

text \<open>One step of a running listener that knows the write endpoint, case by case.\<close>

lemma step_known:
  assumes "write_url c = Some u" and "listening c"
  shows "listener_step lib c e =
     (case json_loads lib (snd e) of
        JSONDecodeError \<Rightarrow> c
      | LoadsRaises x \<Rightarrow> c\<lparr>listening := False\<rparr>
      | Loaded obj \<Rightarrow>
         (case subscript obj ''id'' of
            Inl x \<Rightarrow> c
          | Inr (JString k) \<Rightarrow>
              (case pending c k of
                 None \<Rightarrow> c
               | Some h \<Rightarrow> resolve h obj (c\<lparr>pending := (pending c)(k := None)\<rparr>))
          | Inr (JArray xs) \<Rightarrow> if pending c = Map.empty then c else c\<lparr>listening := False\<rparr>
          | Inr (JObject kvs) \<Rightarrow> if pending c = Map.empty then c else c\<lparr>listening := False\<rparr>
          | Inr v \<Rightarrow> c))"
proof (cases "json_loads lib (snd e)")
  case (Loaded obj)
  show ?thesis
  proof (cases obj "''id''" rule: subscript_cases)
    case (absent x)
    then show ?thesis using Loaded assms(2)
      by (simp add: listener_step_def handle_known [OF assms(1)])
  next
    case (present k)
    then show ?thesis using Loaded assms(2)
      by (cases k)
         (auto simp: listener_step_def handle_known [OF assms(1)] pop_absent split: option.splits)
  qed
qed (simp_all add: listener_step_def handle_known [OF assms(1)] assms(2))

text \<open>
  The two states of a call are stable: an event that does not answer the call leaves it
  waiting, an answer dispatched by a running listener resolves it, and nothing undoes a
  resolution.
\<close>

lemma waiting_register:
  assumes "table_ok c" "write_url c \<noteq> None"
  shows "waiting rid (length (holders c)) (rpc_post url p (rpc_register rid c))"
  using assms
  by (auto simp: waiting_def table_ok_def rpc_post_def rpc_register_def nth_append
           dest: less_SucI)

lemma waiting_step:
  assumes w: "waiting rid h c" and na: "\<not> answers lib rid e"
  shows "waiting rid h (listener_step lib c e)"
proof (cases "listening c")
  case False
  then show ?thesis using w by (simp add: step_not_listening)
next
  case True
  from w obtain u where u: "write_url c = Some u" by (auto simp: waiting_def)
  show ?thesis
  proof (cases "json_loads lib (snd e)")
    case (Loaded obj)
    show ?thesis
    proof (cases "subscript obj ''id''")
      case (Inl x)
      then show ?thesis using w Loaded by (simp add: step_known [OF u True])
    next
      case (Inr k)
      have has: "dict_has obj ''id''" using Inr by (rule subscript_Inr_has)
      show ?thesis
      proof (cases k)
        case (JString s)
        with na Loaded Inr has have ne: "s \<noteq> rid" by (auto simp: answers_def)
        show ?thesis
        proof (cases "pending c s")
          case None
          then show ?thesis using w Loaded Inr JString ne
            by (auto simp: step_known [OF u True] waiting_def table_ok_def)
        next
          case (Some h')
          with w ne have hh: "h' \<noteq> h" by (auto simp: waiting_def)
          from w Some have "h' < length (holders c)" by (auto simp: waiting_def table_ok_def)
          then show ?thesis using w Loaded Inr JString ne Some hh
            by (auto simp: step_known [OF u True] waiting_def table_ok_def resolve_def)
        qed
      qed (use w Loaded Inr in \<open>auto simp: step_known [OF u True] waiting_def table_ok_def\<close>)
    qed
  qed (use w in \<open>auto simp: step_known [OF u True] waiting_def table_ok_def\<close>)
qed

lemma resolved_step:
  assumes r: "resolved rid h obj c"
  shows "resolved rid h obj (listener_step lib c e)"
proof (cases "listening c")
  case False
  then show ?thesis using r by (simp add: step_not_listening)
next
  case True
  from r obtain u where u: "write_url c = Some u" by (auto simp: resolved_def)
  show ?thesis
  proof (cases "json_loads lib (snd e)")
    case (Loaded obj')
    show ?thesis
    proof (cases "subscript obj' ''id''")
      case (Inl x)
      then show ?thesis using r Loaded by (simp add: step_known [OF u True])
    next
      case (Inr k)
      show ?thesis
      proof (cases k)
        case (JString s)
        show ?thesis
        proof (cases "pending c s")
          case None
          then show ?thesis using r Loaded Inr JString
            by (auto simp: step_known [OF u True] resolved_def table_ok_def)
        next
          case (Some h')
          with r have hh: "h' \<noteq> h" by (auto simp: resolved_def)
          then show ?thesis using r Loaded Inr JString Some
            by (auto simp: step_known [OF u True] resolved_def table_ok_def resolve_def)
        qed
      qed (use r Loaded Inr in \<open>auto simp: step_known [OF u True] resolved_def table_ok_def\<close>)
    qed
  qed (use r in \<open>auto simp: step_known [OF u True] resolved_def table_ok_def\<close>)
qed

lemma answer_step:
  assumes w: "waiting rid h c" and l: "listening c" and a: "answers lib rid e"
    and ld: "json_loads lib (snd e) = Loaded obj"
  shows "resolved rid h obj (listener_step lib c e)"
proof -
  from w obtain u where u: "write_url c = Some u" by (auto simp: waiting_def)
  from a ld have sub: "subscript obj ''id'' = Inr (JString rid)" by (simp add: answers_def)
  from w have "h < length (holders c)" by (auto simp: waiting_def table_ok_def)
  then show ?thesis using w ld sub
    by (auto simp: step_known [OF u l] waiting_def resolved_def table_ok_def resolve_def)
qed

lemma listening_step:
  assumes "write_url c \<noteq> None" "listening c" "\<not> fatal lib e"
  shows "listening (listener_step lib c e)"
proof -
  from assms obtain u where u: "write_url c = Some u" by auto
  show ?thesis using assms(2,3)
    by (auto simp: step_known [OF u assms(2)] fatal_def resolve_def
             split: loads_result.splits sum.splits json.splits option.splits)
qed

lemma run_Nil: "listener_run lib [] c = c"
  by (simp add: listener_run_def)

lemma run_Cons: "listener_run lib (e # evs) c = listener_run lib evs (listener_step lib c e)"
  by (simp add: listener_run_def)

lemma run_append: "listener_run lib (xs @ ys) c = listener_run lib ys (listener_run lib xs c)"
  by (simp add: listener_run_def)

lemma waiting_run:
  "waiting rid h c \<Longrightarrow> \<forall>e \<in> set evs. \<not> answers lib rid e \<Longrightarrow> waiting rid h (listener_run lib evs c)"
  by (induction evs arbitrary: c) (simp_all add: run_Nil run_Cons waiting_step)

lemma resolved_run:
  "resolved rid h obj c \<Longrightarrow> resolved rid h obj (listener_run lib evs c)"
  by (induction evs arbitrary: c) (simp_all add: run_Nil run_Cons resolved_step)

lemma bystanders_run:
  "waiting rid h c \<Longrightarrow> listening c \<Longrightarrow> list_all (bystander lib rid) evs \<Longrightarrow>
   waiting rid h (listener_run lib evs c) \<and> listening (listener_run lib evs c)"
proof (induction evs arbitrary: c)
  case Nil
  then show ?case by (simp add: run_Nil)
next
  case (Cons e evs)
  from Cons.prems have e: "\<not> answers lib rid e" "\<not> fatal lib e"
    by (simp_all add: bystander_def)
  have w: "waiting rid h (listener_step lib c e)" using Cons.prems(1) e(1) by (rule waiting_step)
  have l: "listening (listener_step lib c e)"
    using Cons.prems(1,2) e(2) by (intro listening_step) (auto simp: waiting_def)
  show ?case using Cons.IH [OF w l] Cons.prems(3) by (simp add: run_Cons)
qed

lemma delivered_run:
  assumes "waiting rid h c" "listening c" "list_all (bystander lib rid) pre"
    "answers lib rid e" "json_loads lib (snd e) = Loaded obj"
  shows "resolved rid h obj (listener_run lib (pre @ e # post) c)"
proof -
  from bystanders_run [OF assms(1-3)]
  have "waiting rid h (listener_run lib pre c)" "listening (listener_run lib pre c)" by auto
  then have "resolved rid h obj (listener_step lib (listener_run lib pre c) e)"
    using assms(4,5) by (rule answer_step)
  then show ?thesis by (simp add: run_append run_Cons resolved_run)
qed

lemma run_outcome:
  assumes "waiting rid h c"
  shows "waiting rid h (listener_run lib evs c)
       \<or> (\<exists>e \<in> set evs. \<exists>obj. answers lib rid e \<and> json_loads lib (snd e) = Loaded obj
             \<and> resolved rid h obj (listener_run lib evs c))"
  using assms
proof (induction evs arbitrary: c)
  case Nil
  then show ?case by (simp add: run_Nil)
next
  case (Cons e evs)
  show ?case
  proof (cases "answers lib rid e \<and> listening c")
    case True
    then obtain obj where ld: "json_loads lib (snd e) = Loaded obj"
      by (auto simp: answers_def split: loads_result.splits)
    have "resolved rid h obj (listener_step lib c e)"
      using Cons.prems True ld by (intro answer_step) auto
    then have "resolved rid h obj (listener_run lib (e # evs) c)"
      by (simp add: run_Cons resolved_run)
    then show ?thesis using True ld by auto
  next
    case False
    have "waiting rid h (listener_step lib c e)"
    proof (cases "listening c")
      case True
      with False show ?thesis using Cons.prems by (intro waiting_step) auto
    next
      case False
      then show ?thesis using Cons.prems by (simp add: step_not_listening)
    qed
    from Cons.IH [OF this] show ?thesis by (auto simp: run_Cons)
  qed
qed

section \<open>A call, from its registration to its end\<close>

text \<open>
  What the listener does to the table when the event is not an answer, and what
  \<^verbatim>\<open>_rpc\<close> returns from each of the two states its wait can end in.
\<close>

lemma step_pending_other:
  assumes "\<not> answers lib rid e"
  shows "pending (listener_step lib c e) rid = pending c rid"
proof (cases "json_loads lib (snd e)")
  case (Loaded obj)
  show ?thesis
  proof (cases "subscript obj ''id''")
    case (Inl x)
    then have "\<not> dict_has obj ''id''" using dict_has_subscript [of obj "''id''"] by auto
    then show ?thesis using Loaded
      by (auto simp: listener_step_def handle_sse_event_def split: sum.splits)
  next
    case (Inr k)
    have has: "dict_has obj ''id''" using Inr by (rule subscript_Inr_has)
    with assms Loaded Inr have "k \<noteq> JString rid" by (auto simp: answers_def)
    then show ?thesis using Loaded Inr
      by (cases k)
         (auto simp: listener_step_def handle_sse_event_def resolve_def
               split: sum.splits option.splits)
  qed
qed (auto simp: listener_step_def handle_sse_event_def split: sum.splits)

lemma run_pending_other:
  "\<forall>e \<in> set evs. \<not> answers lib rid e \<Longrightarrow> pending (listener_run lib evs c) rid = pending c rid"
  by (induction evs arbitrary: c) (simp_all add: run_Nil run_Cons step_pending_other)

lemma step_unknown_id:
  assumes "json_loads lib (snd e) = Loaded obj" "subscript obj ''id'' = Inr k"
    "\<And>s. k = JString s \<Longrightarrow> pending c s = None"
  shows "pending (listener_step lib c e) = pending c \<and> holders (listener_step lib c e) = holders c"
  using assms
  by (cases k)
     (auto simp: listener_step_def handle_sse_event_def resolve_def
           split: sum.splits option.splits)

lemma handle_unknown_id:
  assumes "json_loads lib data = Loaded obj" "subscript obj ''id'' = Inr k"
    "\<And>s. k = JString s \<Longrightarrow> pending c s = None"
  shows "pending (snd (handle_sse_event lib event data c)) = pending c
       \<and> holders (snd (handle_sse_event lib event data c)) = holders c"
  using assms
  by (cases k) (auto simp: handle_sse_event_def resolve_def split: sum.splits option.splits)

lemma table_ok_step: "table_ok c \<Longrightarrow> table_ok (listener_step lib c e)"
  by (cases "json_loads lib (snd e)")
     (auto simp: listener_step_def handle_sse_event_def resolve_def table_ok_def
           split: sum.splits option.splits prod.splits if_splits elim!: pending_pop_cases)

lemma table_ok_run: "table_ok c \<Longrightarrow> table_ok (listener_run lib evs c)"
  by (induction evs arbitrary: c) (simp_all add: run_Nil run_Cons table_ok_step)

lemma rpc_after_post:
  assumes "write_url c = Some url" "post_result env = PostReturns status body" "status < 400"
  shows "rpc lib env method params c =
     (let c3 = listener_run lib (during_post env @ during_wait env)
                 (rpc_post url (rpc_payload (uuid4 env) method params)
                    (rpc_register (uuid4 env) c))
      in if \<not> event_set (holders c3 ! length (holders c))
         then (Inl (MCPClientError (JString (''Timeout waiting for response to '' @ method))),
               rpc_forget (uuid4 env) (listener_run lib (after_timeout env) c3))
         else (rpc_result (length (holders c)) c3, c3))"
  using assms by (simp add: rpc_def Let_def run_append)

lemma rpc_resolved:
  assumes "write_url c = Some url" "post_result env = PostReturns status body" "status < 400"
    and "resolved (uuid4 env) (length (holders c)) obj
           (listener_run lib (during_post env @ during_wait env)
              (rpc_post url (rpc_payload (uuid4 env) method params)
                 (rpc_register (uuid4 env) c)))"
  shows "rpc lib env method params c =
           (case py_in ''error'' obj of
              Inl x \<Rightarrow> Inl x
            | Inr True \<Rightarrow> (case subscript obj ''error'' of
                             Inl x \<Rightarrow> Inl x | Inr v \<Rightarrow> Inl (MCPClientError v))
            | Inr False \<Rightarrow> Inr obj,
            listener_run lib (during_post env @ during_wait env)
              (rpc_post url (rpc_payload (uuid4 env) method params)
                 (rpc_register (uuid4 env) c)))"
  using assms(4) by (simp add: rpc_after_post [OF assms(1-3)] resolved_def rpc_result_def)

lemma rpc_waiting:
  assumes "write_url c = Some url" "post_result env = PostReturns status body" "status < 400"
    and "waiting (uuid4 env) (length (holders c))
           (listener_run lib (during_post env @ during_wait env)
              (rpc_post url (rpc_payload (uuid4 env) method params)
                 (rpc_register (uuid4 env) c)))"
  shows "rpc lib env method params c =
           (Inl (MCPClientError (JString (''Timeout waiting for response to '' @ method))),
            rpc_forget (uuid4 env)
              (listener_run lib (after_timeout env)
                 (listener_run lib (during_post env @ during_wait env)
                    (rpc_post url (rpc_payload (uuid4 env) method params)
                       (rpc_register (uuid4 env) c)))))"
  using assms(4) by (simp add: rpc_after_post [OF assms(1-3)] waiting_def)

lemma issued_waiting:
  assumes "table_ok c" "write_url c = Some url"
  shows "waiting rid (length (holders c)) (rpc_post url p (rpc_register rid c))"
  using assms by (intro waiting_register) auto

lemma issued_listening: "listening (rpc_post url p (rpc_register rid c)) = listening c"
  by (simp add: rpc_post_def rpc_register_def)

lemma answers_object:
  assumes "json_loads lib (snd e) = Loaded (JObject kvs)" "map_of kvs ''id'' = Some (JString rid)"
  shows "answers lib rid e"
  using assms by (auto simp: answers_def dest: map_of_SomeD intro: rev_image_eqI)

lemma rpc_delivers:
  assumes ok: "table_ok c" and l: "listening c" and u: "write_url c = Some url"
    and post: "post_result env = PostReturns status body" "status < 400"
    and evs: "during_post env @ during_wait env = pre @ e # rest"
    and pre: "list_all (bystander lib (uuid4 env)) pre"
    and e: "json_loads lib (snd e) = Loaded (JObject kvs)"
           "map_of kvs ''id'' = Some (JString (uuid4 env))"
  shows "fst (rpc lib env method params c) =
           (case map_of kvs ''error'' of None \<Rightarrow> Inr (JObject kvs)
            | Some v \<Rightarrow> Inl (MCPClientError v))"
proof -
  let ?c0 = "rpc_post url (rpc_payload (uuid4 env) method params) (rpc_register (uuid4 env) c)"
  have w: "waiting (uuid4 env) (length (holders c)) ?c0" using ok u by (rule issued_waiting)
  have l0: "listening ?c0" using l by (simp add: issued_listening)
  have a: "answers lib (uuid4 env) e" using e by (rule answers_object)
  have "resolved (uuid4 env) (length (holders c)) (JObject kvs)
          (listener_run lib (pre @ e # rest) ?c0)"
    using w l0 pre a e(1) by (rule delivered_run)
  then have r: "resolved (uuid4 env) (length (holders c)) (JObject kvs)
          (listener_run lib (during_post env @ during_wait env) ?c0)"
    by (simp add: evs)
  show ?thesis
  proof (cases "map_of kvs ''error''")
    case None
    then have "''error'' \<notin> fst ` set kvs" by (simp add: map_of_eq_None_iff)
    then show ?thesis using None by (simp add: rpc_resolved [OF u post r])
  next
    case (Some v)
    then have "''error'' \<in> fst ` set kvs" by (auto dest: map_of_SomeD intro: rev_image_eqI)
    then show ?thesis using Some by (simp add: rpc_resolved [OF u post r])
  qed
qed

lemma waiting_registered:
  assumes "table_ok c" "write_url c = Some url"
  shows "waiting rid (length (holders c)) (rpc_register rid c)"
  using assms
  by (auto simp: waiting_def table_ok_def rpc_register_def nth_append dest: less_SucI)

lemma forget_absent: "pending c rid = None \<Longrightarrow> rpc_forget rid c = c"
  by (simp add: rpc_forget_def fun_upd_idem)

lemma answers_loaded:
  assumes "answers lib rid e"
  obtains kvs where "json_loads lib (snd e) = Loaded (JObject kvs)"
    and "subscript (JObject kvs) ''id'' = Inr (JString rid)"
proof -
  from assms obtain obj where ld: "json_loads lib (snd e) = Loaded obj"
    and sub: "subscript obj ''id'' = Inr (JString rid)"
    by (auto simp: answers_def split: loads_result.splits)
  from sub obtain kvs where "obj = JObject kvs" by (cases obj) auto
  with ld sub that show thesis by simp
qed

lemma rpc_times_out:
  assumes ok: "table_ok c" and u: "write_url c = Some url"
    and post: "post_result env = PostReturns status body" "status < 400"
    and quiet: "\<forall>e \<in> set (during_post env @ during_wait env). \<not> answers lib (uuid4 env) e"
  shows "fst (rpc lib env method params c)
           = Inl (MCPClientError (JString (''Timeout waiting for response to '' @ method)))"
    and "pending (snd (rpc lib env method params c)) (uuid4 env) = None"
proof -
  let ?c0 = "rpc_post url (rpc_payload (uuid4 env) method params) (rpc_register (uuid4 env) c)"
  have "waiting (uuid4 env) (length (holders c)) ?c0" using ok u by (rule issued_waiting)
  then have w: "waiting (uuid4 env) (length (holders c))
                  (listener_run lib (during_post env @ during_wait env) ?c0)"
    using quiet by (rule waiting_run)
  show "fst (rpc lib env method params c)
           = Inl (MCPClientError (JString (''Timeout waiting for response to '' @ method)))"
    by (simp add: rpc_waiting [OF u post w])
  show "pending (snd (rpc lib env method params c)) (uuid4 env) = None"
    by (simp add: rpc_waiting [OF u post w] rpc_forget_def)
qed

lemma rpc_no_leak:
  assumes ok: "table_ok c" and u: "write_url c = Some url"
    and post: "post_result env = PostReturns status body" "status < 400"
  shows "pending (snd (rpc lib env method params c)) (uuid4 env) = None"
proof -
  let ?c0 = "rpc_post url (rpc_payload (uuid4 env) method params) (rpc_register (uuid4 env) c)"
  let ?c3 = "listener_run lib (during_post env @ during_wait env) ?c0"
  have w0: "waiting (uuid4 env) (length (holders c)) ?c0" using ok u by (rule issued_waiting)
  from run_outcome [OF w0, of lib "during_post env @ during_wait env"]
  consider (w) "waiting (uuid4 env) (length (holders c)) ?c3"
    | (r) obj where "resolved (uuid4 env) (length (holders c)) obj ?c3"
    by blast
  then show ?thesis
  proof cases
    case w
    then show ?thesis by (simp add: rpc_waiting [OF u post w] rpc_forget_def)
  next
    case r
    then show ?thesis by (simp add: rpc_resolved [OF u post r] resolved_def)
  qed
qed

lemma rpc_normal_return:
  assumes ok: "table_ok c" and ret: "fst (rpc lib env method params c) = Inr r"
  shows "write_url c \<noteq> None"
    and "\<exists>status body. post_result env = PostReturns status body \<and> status < 400"
    and "\<exists>e \<in> set (during_post env @ during_wait env).
           answers lib (uuid4 env) e \<and> json_loads lib (snd e) = Loaded r
           \<and> \<not> dict_has r ''error''"
proof -
  show u0: "write_url c \<noteq> None" using ret by (cases "write_url c") (simp_all add: rpc_def)
  then obtain url where u: "write_url c = Some url" by auto
  show p0: "\<exists>status body. post_result env = PostReturns status body \<and> status < 400"
    using ret u by (cases "post_result env") (auto simp: rpc_def Let_def split: if_splits)
  then obtain status body where post: "post_result env = PostReturns status body" "status < 400"
    by auto
  let ?c0 = "rpc_post url (rpc_payload (uuid4 env) method params) (rpc_register (uuid4 env) c)"
  let ?c3 = "listener_run lib (during_post env @ during_wait env) ?c0"
  have w0: "waiting (uuid4 env) (length (holders c)) ?c0" using ok u by (rule issued_waiting)
  from run_outcome [OF w0, of lib "during_post env @ during_wait env"]
  consider (w) "waiting (uuid4 env) (length (holders c)) ?c3"
    | (r) e obj where "e \<in> set (during_post env @ during_wait env)"
        "answers lib (uuid4 env) e" "json_loads lib (snd e) = Loaded obj"
        "resolved (uuid4 env) (length (holders c)) obj ?c3"
    by blast
  then show "\<exists>e \<in> set (during_post env @ during_wait env).
           answers lib (uuid4 env) e \<and> json_loads lib (snd e) = Loaded r
           \<and> \<not> dict_has r ''error''"
  proof cases
    case w
    then show ?thesis using ret by (simp add: rpc_waiting [OF u post w])
  next
    case r
    from r(2) obtain kvs where "json_loads lib (snd e) = Loaded (JObject kvs)"
      by (rule answers_loaded)
    with r(3) have obj: "obj = JObject kvs" by simp
    from ret have "obj = r \<and> \<not> dict_has r ''error''"
      by (auto simp: rpc_resolved [OF u post r(4)] obj split: sum.splits bool.splits if_splits)
    then show ?thesis using r(1-3) by auto
  qed
qed

lemma rpc_http_error:
  assumes "write_url c = Some url" "post_result env = PostReturns status body" "400 \<le> status"
  shows "rpc lib env method params c =
           (Inl (MCPClientError (JString (''HTTP '' @ str_int status @ '': '' @ body))),
            listener_run lib (during_post env)
              (rpc_post url (rpc_payload (uuid4 env) method params)
                 (rpc_register (uuid4 env) c)))"
  using assms by (simp add: rpc_def Let_def)

lemma str_int_404: "str_int 404 = ''404''"
  by code_simp

section \<open>The write endpoint, once recorded\<close>

lemma handle_keeps_url:
  "write_url c = Some u \<Longrightarrow> write_url (snd (handle_sse_event lib event data c)) = Some u"
  by (cases "json_loads lib data")
     (auto simp: handle_sse_event_def resolve_def split: sum.splits option.splits prod.splits
           elim!: pending_pop_cases)

lemma step_keeps_url: "write_url c = Some u \<Longrightarrow> write_url (listener_step lib c e) = Some u"
  using handle_keeps_url [of c u lib "fst e" "snd e"]
  by (auto simp: listener_step_def split: prod.splits sum.splits)

lemma run_keeps_url: "write_url c = Some u \<Longrightarrow> write_url (listener_run lib evs c) = Some u"
  by (induction evs arbitrary: c) (simp_all add: run_Nil run_Cons step_keeps_url)

section \<open>The examples evaluated\<close>

lemma base_of_example: "split_head ''/sse'' ''https://host/sse?code=ABC'' = ''https://host''"
  by code_simp

lemma join_session:
  "urljoin_str ok ''https://host/'' ''/messages?sessionId=42''
     = Inr ''https://host/messages?sessionId=42''"
  by code_simp

lemma join_session_code:
  "urljoin_str ok ''https://host/'' ''/messages?sessionId=42&code=ABC''
     = Inr ''https://host/messages?sessionId=42&code=ABC''"
  by code_simp

lemma join_code:
  "urljoin_str ok ''https://host/'' ''/messages?code=XYZ'' = Inr ''https://host/messages?code=XYZ''"
  by code_simp

lemma contains_examples:
  "str_contains ''code='' ''/messages?sessionId=42'' = False"
  "str_contains ''?'' ''/messages?sessionId=42'' = True"
  "str_contains ''code='' ''/messages'' = False"
  "str_contains ''?'' ''/messages'' = False"
  by code_simp+

lemmas qualify_eval =
  qualify_endpoint_def urljoin_value_def format_value_def base_of_example contains_examples
  join_session join_session_code join_code

lemma loads_examples:
  "json_loads (example_lib example_table) tools_reply_text = Loaded tools_reply"
  "json_loads (example_lib example_table) error_reply_text = Loaded error_reply"
  "json_loads (example_lib example_table) endpoint_message_text = Loaded endpoint_message"
  "json_loads (example_lib example_table) '': keep-alive'' = JSONDecodeError"
  by (simp_all add: example_lib_def example_table_def tools_reply_text_def
        error_reply_text_def endpoint_message_text_def mimic_reply_text_def list_id_text_def)

lemma connected_facts:
  "table_ok connected" "listening connected"
  "write_url connected = Some ''https://host/messages?sessionId=42''"
  "holders connected = []" "pending connected = Map.empty"
  by (simp_all add: connected_def init_def table_ok_def)

lemma keep_alive_bystander: "bystander (example_lib example_table) rid (ev, '': keep-alive'')"
  by (simp add: bystander_def answers_def fatal_def loads_examples)

lemma discover_example:
  "listener_run (example_lib tbl) [(Some ''endpoint'', ''/messages?sessionId=42'')]
     ((init ''https://host/sse?code=ABC'' None 30)\<lparr>listening := True\<rparr>)
   = (init ''https://host/sse?code=ABC'' None 30)
       \<lparr>listening := True, write_url := Some ''https://host/messages?sessionId=42''\<rparr>"
  by (simp add: listener_run_def listener_step_def handle_sse_event_def qualify_eval
        init_def example_lib_def del: str_contains.simps split_head.simps)

section \<open>The handshake\<close>

text \<open>
  The loop of \<^verbatim>\<open>connect\<close> ends at the first test that finds an endpoint or reads the
  timeout. The write endpoint is never unset, so if it is unknown after a run it was
  unknown after every prefix of the run.
\<close>

lemma run_url_None_prefix:
  assumes "write_url (listener_run lib (xs @ ys) c) = None"
  shows "write_url (listener_run lib xs c) = None"
proof (cases "write_url (listener_run lib xs c)")
  case (Some u)
  then have "write_url (listener_run lib (xs @ ys) c) = Some u"
    by (simp add: run_append run_keeps_url)
  with assms show ?thesis by simp
qed simp

lemma loop_found:
  assumes "\<forall>p \<in> set pre. snd p - st < hs"
    and "write_url (listener_run lib (map snd (concat (map fst pre) @ evs)) c) \<noteq> None"
  shows "\<exists>c1. connect_loop lib hs st (pre @ (evs, now) # rest) c = Some c1 \<and> write_url c1 \<noteq> None"
  using assms
proof (induction pre arbitrary: c)
  case Nil
  then show ?case by (auto simp: Let_def)
next
  case (Cons p pre)
  obtain evs0 now0 where p: "p = (evs0, now0)" by (cases p)
  let ?c' = "listener_run lib (map snd evs0) c"
  show ?case
  proof (cases "write_url ?c' = None")
    case True
    have "\<exists>c1. connect_loop lib hs st (pre @ (evs, now) # rest) ?c' = Some c1
            \<and> write_url c1 \<noteq> None"
      using Cons.prems by (intro Cons.IH) (simp_all add: p run_append)
    then show ?thesis using True Cons.prems(1) by (simp add: p Let_def)
  next
    case False
    then show ?thesis by (auto simp: p Let_def)
  qed
qed

lemma loop_timeout:
  assumes "\<forall>p \<in> set pre. snd p - st < hs" and "hs \<le> now - st"
    and "write_url (listener_run lib (map snd (concat (map fst pre) @ evs)) c) = None"
  shows "connect_loop lib hs st (pre @ [(evs, now)]) c
           = Some (listener_run lib (map snd (concat (map fst pre) @ evs)) c)"
  using assms
proof (induction pre arbitrary: c)
  case Nil
  then show ?case by (auto simp: Let_def)
next
  case (Cons p pre)
  obtain evs0 now0 where p: "p = (evs0, now0)" by (cases p)
  let ?c' = "listener_run lib (map snd evs0) c"
  have rest: "write_url (listener_run lib (map snd (concat (map fst pre) @ evs)) ?c') = None"
    using Cons.prems(3) by (simp add: p run_append)
  have "write_url (listener_run lib (map snd evs0 @ map snd (concat (map fst pre) @ evs)) c)
          = None"
    using Cons.prems(3) by (simp add: p)
  then have none: "write_url ?c' = None" by (rule run_url_None_prefix)
  have "connect_loop lib hs st (pre @ [(evs, now)]) ?c'
          = Some (listener_run lib (map snd (concat (map fst pre) @ evs)) ?c')"
    using Cons.prems(1,2) rest by (intro Cons.IH) simp_all
  then show ?case using none Cons.prems(1) by (simp add: p run_append Let_def)
qed

lemma loop_table_ok:
  "connect_loop lib hs st ps c = Some c1 \<Longrightarrow> table_ok c \<Longrightarrow> table_ok c1"
proof (induction ps arbitrary: c)
  case Nil
  then show ?case by simp
next
  case (Cons p ps)
  obtain evs now where p: "p = (evs, now)" by (cases p)
  show ?case
  proof (cases "write_url (listener_run lib (map snd evs) c) = None \<and> now - st < hs")
    case True
    then show ?thesis using Cons.prems Cons.IH [of "listener_run lib (map snd evs) c"]
      by (simp add: p table_ok_run Let_def)
  next
    case False
    then show ?thesis using Cons.prems by (auto simp: p table_ok_run Let_def)
  qed
qed

lemma connect_returns:
  assumes "connect lib env hs c = Some (Inr (), c')" and "table_ok c"
  shows "write_url c' \<noteq> None" and "table_ok c'"
proof -
  from assms(1) obtain c1 where loop:
      "connect_loop lib hs (started env) (polls env) (c\<lparr>listening := True\<rparr>) = Some c1"
    and c': "c' = listener_run lib (map snd (before_check env)) c1"
    and url: "write_url (listener_run lib (map snd (before_check env)) c1) \<noteq> None"
    by (auto simp: connect_def Let_def split: option.splits if_splits)
  show "write_url c' \<noteq> None" using c' url by simp
  have "table_ok (c\<lparr>listening := True\<rparr>)" using assms(2) by (simp add: table_ok_def)
  with loop have "table_ok c1" by (rule loop_table_ok)
  then show "table_ok c'" by (simp add: c' table_ok_run)
qed

lemma base_of_plain: "split_head ''/sse'' ''https://host/sse'' = ''https://host''"
  by code_simp

lemma discover_plain:
  "listener_run (example_lib tbl) [(Some ''endpoint'', ''/messages?sessionId=42'')]
     ((init ''https://host/sse'' None 30)\<lparr>listening := True\<rparr>)
   = connected"
  by (simp add: listener_run_def listener_step_def handle_sse_event_def qualify_endpoint_def
        urljoin_value_def base_of_plain join_session connected_def
        init_def example_lib_def del: split_head.simps)

lemma handshake_times_out:
  assumes "polls env = pre @ (evs, now) # rest"
    and "\<forall>p \<in> set pre. snd p - started env < hs"
    and a: "rest = []" "hs \<le> now - started env"
         "write_url (listener_run lib (map snd (connect_events env)) (c\<lparr>listening := True\<rparr>)) = None"
  shows "connect lib env hs c
                = Some (Inl (TimeoutError
                               ''Did not receive session write endpoint via SSE handshake''),
                        listener_run lib (map snd (connect_events env))
                          (c\<lparr>listening := True\<rparr>))"
proof -
  let ?c0 = "c\<lparr>listening := True\<rparr>"
  have ev: "connect_events env = (concat (map fst pre) @ evs) @ before_check env"
    using assms(1) a(1) by (simp add: connect_events_def)
  have "write_url (listener_run lib (map snd (concat (map fst pre) @ evs)
                     @ map snd (before_check env)) ?c0) = None"
    using a(3) unfolding ev map_append .
  then have none: "write_url (listener_run lib (map snd (concat (map fst pre) @ evs)) ?c0) = None"
    by (rule run_url_None_prefix)
  have "connect_loop lib hs (started env) (pre @ [(evs, now)]) ?c0
          = Some (listener_run lib (map snd (concat (map fst pre) @ evs)) ?c0)"
    using assms(2) a(2) none by (rule loop_timeout)
  then have loop: "connect_loop lib hs (started env) (polls env) ?c0
          = Some (listener_run lib (map snd (concat (map fst pre) @ evs)) ?c0)"
    unfolding assms(1) a(1) .
  have final: "listener_run lib (map snd (before_check env))
                 (listener_run lib (map snd (concat (map fst pre) @ evs)) ?c0)
               = listener_run lib (map snd (connect_events env)) ?c0"
    unfolding ev map_append run_append ..
  show ?thesis
    unfolding connect_def loop using a(3) by (simp add: ev run_append)
qed


lemma handshake_succeeds:
  assumes "polls env = pre @ (evs, now) # rest"
    and "\<forall>p \<in> set pre. snd p - started env < hs"
    and a: "write_url (listener_run lib (map snd (concat (map fst pre) @ evs))
                        (c\<lparr>listening := True\<rparr>)) \<noteq> None"
  shows "\<exists>c1. connect lib env hs c = Some (Inr (), c1)"
proof -
  let ?c0 = "c\<lparr>listening := True\<rparr>"
  from assms(2) a obtain c1 where
    loop: "connect_loop lib hs (started env) (pre @ (evs, now) # rest) ?c0 = Some c1"
    and url: "write_url c1 \<noteq> None"
    using loop_found [of pre "started env" hs lib evs ?c0 now rest] by blast
  from url obtain u where "write_url c1 = Some u" by auto
  then have "write_url (listener_run lib (map snd (before_check env)) c1) = Some u"
    by (rule run_keeps_url)
  then show ?thesis
    unfolding connect_def assms(1) loop by simp
qed

lemma call_after_handshake:
  assumes a: "connect lib env hs c = Some (Inr (), c')" "table_ok c" "listening c'"
            "json_loads lib d = Loaded (JObject kvs)"
            "map_of kvs ''id'' = Some (JString rid)" "map_of kvs ''error'' = None"
  shows "write_url c' \<noteq> None"
    and "fst (rpc lib \<lparr>uuid4 = rid, during_post = [], post_result = PostReturns 200 body,
                      during_wait = [(ev, d)], after_timeout = []\<rparr> meth pars c')
          = Inr (JObject kvs)"
proof -
  have url: "write_url c' \<noteq> None" and ok: "table_ok c'"
    using connect_returns [OF a(1,2)] by simp_all
  show "write_url c' \<noteq> None" by (rule url)
  from url obtain u where u: "write_url c' = Some u" by auto
  show "fst (rpc lib \<lparr>uuid4 = rid, during_post = [], post_result = PostReturns 200 body,
                      during_wait = [(ev, d)], after_timeout = []\<rparr> meth pars c')
          = Inr (JObject kvs)"
    using rpc_delivers [of c' u "\<lparr>uuid4 = rid, during_post = [], post_result = PostReturns 200 body,
                      during_wait = [(ev, d)], after_timeout = []\<rparr>" 200 body "[]" "(ev, d)" "[]"
                      lib kvs meth pars] ok u a(3-6)
    by simp
qed


lemma init_url: "write_url ((init u k t)\<lparr>listening := b\<rparr>) = None"
  by (simp add: init_def)

lemma step_plain:
  "listener_step (example_lib tbl) ((init ''https://host/sse'' None 30)\<lparr>listening := True\<rparr>)
     (Some ''endpoint'', ''/messages?sessionId=42'') = connected"
  using discover_plain [of tbl] by (simp add: listener_run_def)

lemma connect_prompt:
  "connect (example_lib tbl) prompt_handshake 20 (init ''https://host/sse'' None 30)
     = Some (Inr (), connected)"
  by (simp add: connect_def prompt_handshake_def connected_facts run_Nil discover_plain)

lemma connect_late:
  "connect (example_lib tbl) late_handshake 20 (init ''https://host/sse'' None 30)
     = Some (Inr (), connected)"
  by (simp add: connect_def late_handshake_def connected_facts run_Nil discover_plain init_url)

section \<open>The table invariant\<close>

text \<open>The initial state satisfies \<open>table_ok\<close>, and \<^verbatim>\<open>_rpc\<close>, \<^verbatim>\<open>connect\<close> and the listener keep it.\<close>

lemma table_ok_init: "table_ok (init url key t)"
  by (simp add: init_def table_ok_def)

lemma table_ok_register: "table_ok c \<Longrightarrow> table_ok (rpc_register rid c)"
  by (auto simp: table_ok_def rpc_register_def dest: less_SucI)

lemma table_ok_rpc:
  assumes "table_ok c"
  shows "table_ok (snd (rpc lib env method params c))"
proof (cases "write_url c")
  case None
  then show ?thesis using assms by (simp add: rpc_def)
next
  case (Some url)
  have "table_ok (rpc_post url (rpc_payload (uuid4 env) method params)
                    (rpc_register (uuid4 env) c))"
    using table_ok_register [OF assms, of "uuid4 env"] by (simp add: table_ok_def rpc_post_def)
  then have ok: "table_ok (listener_run lib evs (listener_run lib evs' (listener_run lib evs''
                   (rpc_post url (rpc_payload (uuid4 env) method params)
                      (rpc_register (uuid4 env) c)))))" for evs evs' evs''
    by (intro table_ok_run)
  have forget: "table_ok (rpc_forget rid c')" if "table_ok c'" for rid c'
    using that by (auto simp: table_ok_def rpc_forget_def)
  show ?thesis
    using ok [of "[]" "[]"] ok [of "[]"] forget [OF ok]
    by (cases "post_result env") (simp_all add: rpc_def Some Let_def run_Nil)
qed

lemma table_ok_connect:
  assumes "connect lib env hs c = Some (r, c')" and "table_ok c"
  shows "table_ok c'"
proof -
  from assms(1) obtain c1 where loop:
      "connect_loop lib hs (started env) (polls env) (c\<lparr>listening := True\<rparr>) = Some c1"
    and c': "c' = listener_run lib (map snd (before_check env)) c1"
    by (auto simp: connect_def Let_def split: option.splits if_splits)
  have "table_ok (c\<lparr>listening := True\<rparr>)" using assms(2) by (simp add: table_ok_def)
  with loop have "table_ok c1" by (rule loop_table_ok)
  then show ?thesis by (simp add: c' table_ok_run)
qed

section \<open>The moments of a call\<close>

text \<open>
  The listener never touches the list of issued ids, so a call adds exactly its own id.
  Before the answer is dispatched every moment of the call is a waiting state, after it
  every moment is a resolved one; and the state \<^verbatim>\<open>_rpc\<close> ends in is the last moment,
  followed on a timeout by the removal at line 102.
\<close>

lemma step_issued: "issued (listener_step lib c e) = issued c"
  by (cases "json_loads lib (snd e)")
     (auto simp: listener_step_def handle_sse_event_def resolve_def
           split: sum.splits option.splits prod.splits elim!: pending_pop_cases)

lemma run_issued: "issued (listener_run lib evs c) = issued c"
  by (induction evs arbitrary: c) (simp_all add: run_Nil run_Cons step_issued)

lemma rpc_issues_id:
  assumes "write_url c = Some url"
  shows "issued (snd (rpc lib env method params c)) = issued c @ [uuid4 env]"
  using assms
  by (cases "post_result env")
     (simp_all add: rpc_def Let_def run_issued rpc_forget_def rpc_post_def rpc_register_def)

lemma moment_last:
  "call_moment lib env method params url c (length (during_post env @ during_wait env))
     = listener_run lib (during_post env @ during_wait env)
         (rpc_post url (rpc_payload (uuid4 env) method params) (rpc_register (uuid4 env) c))"
  by (simp add: call_moment_def)

lemma moment_waiting:
  assumes "table_ok c" and "write_url c = Some url"
    and "\<forall>e \<in> set (take n (during_post env @ during_wait env)). \<not> answers lib (uuid4 env) e"
  shows "waiting (uuid4 env) (length (holders c)) (call_moment lib env method params url c n)"
  unfolding call_moment_def
  using issued_waiting [OF assms(1,2)] assms(3) by (rule waiting_run)

lemma moment_before_answer:
  assumes "table_ok c" and "write_url c = Some url"
    and "during_post env @ during_wait env = pre @ e # rest"
    and "list_all (bystander lib (uuid4 env)) pre" and "n \<le> length pre"
  shows "pending (call_moment lib env method params url c n) (uuid4 env)
           = Some (length (holders c))"
proof -
  have "set (take n (pre @ e # rest)) \<subseteq> set pre"
    using assms(5) by (simp add: set_take_subset)
  then have "\<forall>x \<in> set (take n (during_post env @ during_wait env)). \<not> answers lib (uuid4 env) x"
    using assms(4) by (auto simp: assms(3) list_all_iff bystander_def)
  with assms(1,2) have "waiting (uuid4 env) (length (holders c))
                          (call_moment lib env method params url c n)"
    by (rule moment_waiting)
  then show ?thesis by (simp add: waiting_def)
qed

lemma moment_after_answer:
  assumes "table_ok c" and "write_url c = Some url" and "listening c"
    and "during_post env @ during_wait env = pre @ e # rest"
    and "list_all (bystander lib (uuid4 env)) pre" and "answers lib (uuid4 env) e"
    and "length pre < n"
  shows "pending (call_moment lib env method params url c n) (uuid4 env) = None"
proof -
  from assms(6) obtain kvs where ld: "json_loads lib (snd e) = Loaded (JObject kvs)"
    by (auto elim: answers_loaded)
  from assms(7) obtain m where n: "n = Suc (length pre + m)"
    by (auto simp: less_iff_Suc_add)
  have "take n (pre @ e # rest) = pre @ e # take m rest"
    by (simp add: n)
  moreover have "resolved (uuid4 env) (length (holders c)) (JObject kvs)
          (listener_run lib (pre @ e # take m rest)
             (rpc_post url (rpc_payload (uuid4 env) method params)
                (rpc_register (uuid4 env) c)))"
    using issued_waiting [OF assms(1,2)] assms(3,5,6) ld
    by (intro delivered_run) (simp_all add: issued_listening)
  ultimately show ?thesis by (simp add: call_moment_def assms(4) resolved_def)
qed

lemma rpc_ends_answered:
  assumes "table_ok c" and "write_url c = Some url" and "listening c"
    and "post_result env = PostReturns status body" and "status < 400"
    and "during_post env @ during_wait env = pre @ e # rest"
    and "list_all (bystander lib (uuid4 env)) pre" and "answers lib (uuid4 env) e"
  shows "snd (rpc lib env method params c)
           = call_moment lib env method params url c (length (during_post env @ during_wait env))"
proof -
  from assms(8) obtain kvs where ld: "json_loads lib (snd e) = Loaded (JObject kvs)"
    by (auto elim: answers_loaded)
  have "resolved (uuid4 env) (length (holders c)) (JObject kvs)
          (listener_run lib (pre @ e # rest)
             (rpc_post url (rpc_payload (uuid4 env) method params)
                (rpc_register (uuid4 env) c)))"
    using issued_waiting [OF assms(1,2)] assms(3,7,8) ld
    by (intro delivered_run) (simp_all add: issued_listening)
  then have "resolved (uuid4 env) (length (holders c)) (JObject kvs)
          (listener_run lib (during_post env @ during_wait env)
             (rpc_post url (rpc_payload (uuid4 env) method params)
                (rpc_register (uuid4 env) c)))"
    by (simp add: assms(6))
  then show ?thesis
    by (simp add: rpc_resolved [OF assms(2,4,5)] call_moment_def)
qed

lemma rpc_ends_timed_out:
  assumes "table_ok c" and "write_url c = Some url"
    and "post_result env = PostReturns status body" and "status < 400"
    and "\<forall>e \<in> set (during_post env @ during_wait env). \<not> answers lib (uuid4 env) e"
  shows "snd (rpc lib env method params c)
           = rpc_forget (uuid4 env)
               (listener_run lib (after_timeout env)
                  (call_moment lib env method params url c
                     (length (during_post env @ during_wait env))))"
proof -
  have "waiting (uuid4 env) (length (holders c))
          (listener_run lib (during_post env @ during_wait env)
             (rpc_post url (rpc_payload (uuid4 env) method params)
                (rpc_register (uuid4 env) c)))"
    using issued_waiting [OF assms(1,2)] assms(5) by (rule waiting_run)
  then show ?thesis
    by (simp add: rpc_waiting [OF assms(2,3,4)] call_moment_def)
qed

lemma late_answer_dropped:
  assumes "pending c rid = None" and "answers lib rid e"
  shows "pending (listener_step lib c e) = pending c"
    and "holders (listener_step lib c e) = holders c"
proof -
  from assms(2) obtain kvs where ld: "json_loads lib (snd e) = Loaded (JObject kvs)"
    and sub: "subscript (JObject kvs) ''id'' = Inr (JString rid)"
    by (rule answers_loaded)
  have "pending (listener_step lib c e) = pending c \<and> holders (listener_step lib c e) = holders c"
    using ld sub by (rule step_unknown_id) (simp add: assms(1))
  then show "pending (listener_step lib c e) = pending c"
    and "holders (listener_step lib c e) = holders c"
    by simp_all
qed

section \<open>More examples evaluated\<close>

lemma loads_more_examples:
  "json_loads (example_lib example_table) mimic_reply_text = Loaded mimic_reply"
  "json_loads (example_lib example_table) list_id_text = Loaded list_id_message"
  by (simp_all add: example_lib_def example_table_def tools_reply_text_def
        error_reply_text_def endpoint_message_text_def mimic_reply_text_def list_id_text_def)

lemma loads_deep: "json_loads (depth_limited lib) deep_text = LoadsRaises RecursionError"
  by (simp add: depth_limited_def)

lemma discover_noisy:
  "listener_run (example_lib example_table)
     [(None, list_id_text), (Some ''endpoint'', ''/messages?sessionId=42'')]
     ((init ''https://host/sse'' None 30)\<lparr>listening := True\<rparr>)
   = connected"
proof -
  have "listener_step (example_lib example_table)
          ((init ''https://host/sse'' None 30)\<lparr>listening := True\<rparr>) (None, list_id_text)
        = (init ''https://host/sse'' None 30)\<lparr>listening := True\<rparr>"
    by (simp add: listener_step_def handle_sse_event_def loads_more_examples
          list_id_message_def init_def)
  then show ?thesis
    using discover_plain [of example_table] by (simp add: run_Cons)
qed

lemma connect_noisy:
  "connect (example_lib example_table) noisy_handshake 20 (init ''https://host/sse'' None 30)
     = Some (Inr (), connected)"
  using discover_noisy
  by (simp add: connect_def noisy_handshake_def connected_facts run_Nil)

lemma join_barcode:
  "urljoin_str ok ''https://host/'' ''/messages?barcode=7'' = Inr ''https://host/messages?barcode=7''"
  by code_simp

lemma contains_barcode: "str_contains ''code='' ''/messages?barcode=7'' = True"
  by code_simp

text \<open>
  The test at line 78 is a substring test: an endpoint with a parameter whose name ends in
  \<^verbatim>\<open>code\<close> counts as carrying the credential, and the access token is not appended.
\<close>

lemma qualify_endpoint_substring:
  "qualify_endpoint (example_lib []) (init ''https://host/sse'' (Some ''K'') 30)
     (JString ''/messages?barcode=7'') = Inr ''https://host/messages?barcode=7''"
  by (simp add: qualify_endpoint_def urljoin_value_def base_of_plain contains_barcode
        join_barcode example_lib_def init_def del: str_contains.simps split_head.simps)

section \<open>The claims\<close>

subsection \<open>C1\<close>

text \<open>
  C1, as stated, fails: in the run \<open>answered_call\<close> the reply to \<^verbatim>\<open>tools/list\<close> arrives
  during the wait, and \<^verbatim>\<open>_rpc\<close> returns the whole reply, which is neither its \<^verbatim>\<open>result\<close>
  member nor the \<^verbatim>\<open>tools\<close> payload.
\<close>

theorem rpc_result_field_counterexample:
  "fst (rpc (example_lib example_table) answered_call ''tools/list'' (JObject []) connected)
     = Inr tools_reply
   \<and> fst (rpc (example_lib example_table) answered_call ''tools/list'' (JObject []) connected)
     \<noteq> subscript tools_reply ''result''
   \<and> fst (rpc (example_lib example_table) answered_call ''tools/list'' (JObject []) connected)
     \<noteq> Inr tools_payload"
proof -
  have "fst (rpc (example_lib example_table) answered_call ''tools/list'' (JObject []) connected)
          = Inr tools_reply"
    using rpc_delivers [of connected _ answered_call 200 "[]" "[(None, '': keep-alive'')]"
             "(None, tools_reply_text)" "[]" "example_lib example_table" _
             "''tools/list''" "JObject []"]
    by (simp add: connected_facts answered_call_def loads_examples tools_reply_def
          keep_alive_bystander)
  then show ?thesis by (simp add: tools_reply_def tools_payload_def)
qed

text \<open>
  C1, amended: when the POST returns a status below 400 and, the listener running, the
  first event that answers the call arrives before the wait ends and has no \<^verbatim>\<open>error\<close>
  member, \<^verbatim>\<open>_rpc\<close> returns the whole response object; \<^verbatim>\<open>list_tools\<close> then returns the
  \<^verbatim>\<open>tools\<close> member of its \<^verbatim>\<open>result\<close>.
\<close>

theorem rpc_returns_response:
  assumes "table_ok c" and "listening c" and "write_url c = Some url"
    and "post_result env = PostReturns status body" and "status < 400"
    and "during_post env @ during_wait env = pre @ e # rest"
    and "list_all (bystander lib (uuid4 env)) pre"
    and "json_loads lib (snd e) = Loaded (JObject kvs)"
    and "map_of kvs ''id'' = Some (JString (uuid4 env))"
    and "map_of kvs ''error'' = None"
  shows "fst (rpc lib env method params c) = Inr (JObject kvs)
       \<and> fst (list_tools lib env c) = result_member (JObject kvs) ''tools''"
proof -
  have r: "fst (rpc lib env m p c) = Inr (JObject kvs)" for m p
    using rpc_delivers [OF assms(1-9), of m p] assms(10) by simp
  have "fst (list_tools lib env c) = result_member (JObject kvs) ''tools''"
    using r [of "''tools/list''" "JObject []"]
    by (cases "rpc lib env ''tools/list'' (JObject []) c") (simp add: list_tools_def)
  with r show ?thesis by simp
qed

theorem rpc_returns_response_witness:
  "fst (rpc (example_lib example_table) answered_call ''tools/list'' (JObject []) connected)
     = Inr tools_reply
   \<and> fst (list_tools (example_lib example_table) answered_call connected) = Inr tools_payload"
  using rpc_returns_response [of connected _ answered_call 200 "[]" "[(None, '': keep-alive'')]"
           "(None, tools_reply_text)" "[]" "example_lib example_table" _
           "''tools/list''" "JObject []"]
  by (simp add: connected_facts answered_call_def loads_examples tools_reply_def
        keep_alive_bystander result_member_def)

subsection \<open>C2\<close>

text \<open>
  C2, as stated, leaves the access token of the first example open. With the token
  \<^verbatim>\<open>ABC\<close> configured, as the script at the end of the source does, the raw endpoint
  \<^verbatim>\<open>/messages?sessionId=42\<close> carries no \<^verbatim>\<open>code=\<close>, so the token is appended and the
  write URL is not \<^verbatim>\<open>https://host/messages?sessionId=42\<close>.
\<close>

theorem qualify_endpoint_appends_token:
  "qualify_endpoint (example_lib []) (init ''https://host/sse?code=ABC'' (Some ''ABC'') 30)
       (JString ''/messages?sessionId=42'')
     = Inr ''https://host/messages?sessionId=42&code=ABC''
   \<and> qualify_endpoint (example_lib []) (init ''https://host/sse?code=ABC'' (Some ''ABC'') 30)
       (JString ''/messages?sessionId=42'')
     \<noteq> Inr ''https://host/messages?sessionId=42''"
  by (simp add: qualify_eval example_lib_def init_def del: str_contains.simps split_head.simps)

text \<open>
  C2, amended: with the base stream URL \<^verbatim>\<open>https://host/sse?code=ABC\<close> and the raw endpoint
  \<^verbatim>\<open>/messages?sessionId=42\<close>, \<^verbatim>\<open>_qualify_endpoint\<close> gives
  \<^verbatim>\<open>https://host/messages?sessionId=42\<close> when no access token is configured, and
  \<^verbatim>\<open>https://host/messages?sessionId=42&code=ABC\<close> when the token \<^verbatim>\<open>ABC\<close> is; with the raw
  endpoint \<^verbatim>\<open>/messages\<close> and the token \<^verbatim>\<open>XYZ\<close> it gives \<^verbatim>\<open>https://host/messages?code=XYZ\<close>.
\<close>

theorem qualify_endpoint_examples:
  assumes "urljoin lib = urljoin_str ip_ok"
    and "base_sse_url c = ''https://host/sse?code=ABC''"
  shows "qualify_endpoint lib (c\<lparr>function_key := None\<rparr>) (JString ''/messages?sessionId=42'')
           = Inr ''https://host/messages?sessionId=42''
       \<and> qualify_endpoint lib (c\<lparr>function_key := Some ''ABC''\<rparr>)
             (JString ''/messages?sessionId=42'')
           = Inr ''https://host/messages?sessionId=42&code=ABC''
       \<and> qualify_endpoint lib (c\<lparr>function_key := Some ''XYZ''\<rparr>) (JString ''/messages'')
           = Inr ''https://host/messages?code=XYZ''"
  using assms by (simp add: qualify_eval del: str_contains.simps split_head.simps)

theorem qualify_endpoint_examples_witness:
  "qualify_endpoint (example_lib []) (init ''https://host/sse?code=ABC'' None 30)
       (JString ''/messages?sessionId=42'')
     = Inr ''https://host/messages?sessionId=42''
   \<and> qualify_endpoint (example_lib []) (init ''https://host/sse?code=ABC'' (Some ''XYZ'') 30)
       (JString ''/messages'')
     = Inr ''https://host/messages?code=XYZ''"
  using qualify_endpoint_examples
          [of "example_lib []" "\<lambda>host. True" "init ''https://host/sse?code=ABC'' None 30"]
  by (simp add: example_lib_def init_def)

subsection \<open>C3\<close>

text \<open>
  C3: a call draws one id and, the write endpoint being known, registers one entry for
  it. While the listener dispatches events that do not answer the call, the table maps the
  id to the call's holder at every moment. If no answer comes before the wait ends, the
  call ends by the removal at line 102, after which the id is absent and a late answer
  changes neither the table nor a holder. If an answer is dispatched, the entry is there
  at every moment up to it and absent at every moment after it, the call ends in the
  state of its last moment, with the id absent, and the removal at line 102, which does
  not run, would take nothing away.
\<close>

theorem pending_lifecycle:
  assumes "table_ok c" and "write_url c = Some url"
  shows "issued (snd (rpc lib env meth pars c)) = issued c @ [uuid4 env]
       \<and> pending (call_moment lib env meth pars url c 0) (uuid4 env) = Some (length (holders c))
       \<and> ((\<forall>e \<in> set (during_post env @ during_wait env). \<not> answers lib (uuid4 env) e)
          \<longrightarrow> (\<forall>n. pending (call_moment lib env meth pars url c n) (uuid4 env)
                      = Some (length (holders c)))
              \<and> (post_result env = PostReturns status body \<and> status < 400
                 \<longrightarrow> snd (rpc lib env meth pars c)
                       = rpc_forget (uuid4 env)
                           (listener_run lib (after_timeout env)
                              (call_moment lib env meth pars url c
                                 (length (during_post env @ during_wait env))))
                     \<and> pending (snd (rpc lib env meth pars c)) (uuid4 env) = None
                     \<and> (\<forall>e'. answers lib (uuid4 env) e'
                          \<longrightarrow> pending (listener_step lib (snd (rpc lib env meth pars c)) e')
                                = pending (snd (rpc lib env meth pars c))
                              \<and> holders (listener_step lib (snd (rpc lib env meth pars c)) e')
                                = holders (snd (rpc lib env meth pars c)))))
       \<and> (listening c \<and> during_post env @ during_wait env = pre @ e # rest
            \<and> list_all (bystander lib (uuid4 env)) pre \<and> answers lib (uuid4 env) e
          \<longrightarrow> (\<forall>n \<le> length pre. pending (call_moment lib env meth pars url c n) (uuid4 env)
                                  = Some (length (holders c)))
              \<and> (\<forall>n > length pre. pending (call_moment lib env meth pars url c n) (uuid4 env)
                                  = None)
              \<and> (post_result env = PostReturns status body \<and> status < 400
                 \<longrightarrow> snd (rpc lib env meth pars c)
                       = call_moment lib env meth pars url c
                           (length (during_post env @ during_wait env))
                     \<and> pending (snd (rpc lib env meth pars c)) (uuid4 env) = None
                     \<and> rpc_forget (uuid4 env) (snd (rpc lib env meth pars c))
                       = snd (rpc lib env meth pars c)))"
proof -
  have issue: "issued (snd (rpc lib env meth pars c)) = issued c @ [uuid4 env]"
    using assms(2) by (rule rpc_issues_id)
  have silent: "pending (call_moment lib env meth pars url c n) (uuid4 env)
                  = Some (length (holders c))"
    if "\<forall>e \<in> set (during_post env @ during_wait env). \<not> answers lib (uuid4 env) e" for n
  proof -
    have "\<forall>e \<in> set (take n (during_post env @ during_wait env)). \<not> answers lib (uuid4 env) e"
      using that by (auto dest: in_set_takeD)
    with assms have "waiting (uuid4 env) (length (holders c))
                       (call_moment lib env meth pars url c n)"
      by (rule moment_waiting)
    then show ?thesis by (simp add: waiting_def)
  qed
  have first: "pending (call_moment lib env meth pars url c 0) (uuid4 env)
                 = Some (length (holders c))"
    using moment_waiting [OF assms, of 0 env lib meth pars] by (simp add: waiting_def)
  have timed_out:
    "snd (rpc lib env meth pars c)
       = rpc_forget (uuid4 env)
           (listener_run lib (after_timeout env)
              (call_moment lib env meth pars url c
                 (length (during_post env @ during_wait env))))
     \<and> pending (snd (rpc lib env meth pars c)) (uuid4 env) = None
     \<and> (\<forall>e'. answers lib (uuid4 env) e'
          \<longrightarrow> pending (listener_step lib (snd (rpc lib env meth pars c)) e')
                = pending (snd (rpc lib env meth pars c))
              \<and> holders (listener_step lib (snd (rpc lib env meth pars c)) e')
                = holders (snd (rpc lib env meth pars c)))"
    if quiet: "\<forall>e \<in> set (during_post env @ during_wait env). \<not> answers lib (uuid4 env) e"
      and post: "post_result env = PostReturns status body \<and> status < 400"
  proof -
    from post have p: "post_result env = PostReturns status body" "status < 400" by simp_all
    have gone: "pending (snd (rpc lib env meth pars c)) (uuid4 env) = None"
      using assms p by (rule rpc_no_leak)
    show ?thesis
      using rpc_ends_timed_out [OF assms p quiet] gone late_answer_dropped [OF gone]
      by blast
  qed
  have answered:
    "(\<forall>n \<le> length pre. pending (call_moment lib env meth pars url c n) (uuid4 env)
                          = Some (length (holders c)))
     \<and> (\<forall>n > length pre. pending (call_moment lib env meth pars url c n) (uuid4 env) = None)
     \<and> (post_result env = PostReturns status body \<and> status < 400
        \<longrightarrow> snd (rpc lib env meth pars c)
              = call_moment lib env meth pars url c (length (during_post env @ during_wait env))
            \<and> pending (snd (rpc lib env meth pars c)) (uuid4 env) = None
            \<and> rpc_forget (uuid4 env) (snd (rpc lib env meth pars c))
              = snd (rpc lib env meth pars c))"
    if a: "listening c \<and> during_post env @ during_wait env = pre @ e # rest
            \<and> list_all (bystander lib (uuid4 env)) pre \<and> answers lib (uuid4 env) e"
  proof (intro conjI allI impI)
    from a have l: "listening c" and evs: "during_post env @ during_wait env = pre @ e # rest"
      and pre: "list_all (bystander lib (uuid4 env)) pre" and ans: "answers lib (uuid4 env) e"
      by simp_all
    show "pending (call_moment lib env meth pars url c n) (uuid4 env) = Some (length (holders c))"
      if "n \<le> length pre" for n
      using assms evs pre that by (rule moment_before_answer)
    show "pending (call_moment lib env meth pars url c n) (uuid4 env) = None"
      if "length pre < n" for n
      using assms l evs pre ans that by (rule moment_after_answer)
    assume post: "post_result env = PostReturns status body \<and> status < 400"
    then have p: "post_result env = PostReturns status body" "status < 400" by simp_all
    show "snd (rpc lib env meth pars c)
            = call_moment lib env meth pars url c (length (during_post env @ during_wait env))"
      using assms l p evs pre ans by (rule rpc_ends_answered)
    show gone: "pending (snd (rpc lib env meth pars c)) (uuid4 env) = None"
      using assms p by (rule rpc_no_leak)
    show "rpc_forget (uuid4 env) (snd (rpc lib env meth pars c)) = snd (rpc lib env meth pars c)"
      using gone by (rule forget_absent)
  qed
  show ?thesis
    using issue first silent timed_out answered by blast
qed

theorem pending_lifecycle_witness:
  "issued (snd (rpc (example_lib example_table) answered_call ''tools/list'' (JObject [])
             connected)) = [example_rid]
   \<and> pending (call_moment (example_lib example_table) answered_call ''tools/list'' (JObject [])
        ''https://host/messages?sessionId=42'' connected 0) example_rid = Some 0
   \<and> pending (call_moment (example_lib example_table) answered_call ''tools/list'' (JObject [])
        ''https://host/messages?sessionId=42'' connected 1) example_rid = Some 0
   \<and> pending (call_moment (example_lib example_table) answered_call ''tools/list'' (JObject [])
        ''https://host/messages?sessionId=42'' connected 2) example_rid = None
   \<and> pending (snd (rpc (example_lib example_table) answered_call ''tools/list'' (JObject [])
        connected)) example_rid = None
   \<and> pending (call_moment (example_lib example_table) silent_call ''tools/list'' (JObject [])
        ''https://host/messages?sessionId=42'' connected 1) example_rid = Some 0
   \<and> pending (snd (rpc (example_lib example_table) silent_call ''tools/list'' (JObject [])
        connected)) example_rid = None"
proof -
  note a = pending_lifecycle [where c = connected and url = "''https://host/messages?sessionId=42''"
      and env = answered_call and lib = "example_lib example_table"
      and meth = "''tools/list''" and pars = "JObject []"
      and pre = "[(None, '': keep-alive'')]" and e = "(None, tools_reply_text)" and rest = "[]"
      and status = 200 and body = "[]", OF connected_facts(1) connected_facts(3)]
  note s = pending_lifecycle [where c = connected and url = "''https://host/messages?sessionId=42''"
      and env = silent_call and lib = "example_lib example_table"
      and meth = "''tools/list''" and pars = "JObject []"
      and pre = "[]" and e = "(None, '': keep-alive'')" and rest = "[]"
      and status = 200 and body = "[]", OF connected_facts(1) connected_facts(3)]
  have ans: "listening connected
      \<and> during_post answered_call @ during_wait answered_call
          = [(None, '': keep-alive'')] @ (None, tools_reply_text) # []
      \<and> list_all (bystander (example_lib example_table) (uuid4 answered_call))
            [(None, '': keep-alive'')]
      \<and> answers (example_lib example_table) (uuid4 answered_call) (None, tools_reply_text)"
    by (simp add: answers_def loads_examples tools_reply_def answered_call_def connected_facts
          keep_alive_bystander)
  have quiet: "\<forall>e \<in> set (during_post silent_call @ during_wait silent_call).
                 \<not> answers (example_lib example_table) (uuid4 silent_call) e"
    by (simp add: answers_def loads_examples silent_call_def)
  have ok: "post_result answered_call = PostReturns 200 [] \<and> (200::int) < 400"
    "post_result silent_call = PostReturns 200 [] \<and> (200::int) < 400"
    by (simp_all add: answered_call_def silent_call_def)
  have ids: "uuid4 answered_call = example_rid" "uuid4 silent_call = example_rid"
    "issued connected = []" "length (holders connected) = 0"
    "length [(None :: string option, '': keep-alive'')] = 1"
    by (simp_all add: answered_call_def silent_call_def connected_def init_def)
  from a have a1: "issued (snd (rpc (example_lib example_table) answered_call ''tools/list''
                     (JObject []) connected)) = issued connected @ [uuid4 answered_call]"
    and a2: "pending (call_moment (example_lib example_table) answered_call ''tools/list''
               (JObject []) ''https://host/messages?sessionId=42'' connected 0)
               (uuid4 answered_call) = Some (length (holders connected))"
    by blast+
  from a ans have a3: "\<forall>n \<le> length [(None :: string option, '': keep-alive'')].
               pending (call_moment (example_lib example_table) answered_call
               ''tools/list'' (JObject []) ''https://host/messages?sessionId=42'' connected n)
               (uuid4 answered_call) = Some (length (holders connected))"
    and a4: "\<forall>n > length [(None :: string option, '': keep-alive'')].
               pending (call_moment (example_lib example_table) answered_call
               ''tools/list'' (JObject []) ''https://host/messages?sessionId=42'' connected n)
               (uuid4 answered_call) = None"
    by blast+
  from a ans ok(1) have a5: "pending (snd (rpc (example_lib example_table) answered_call
               ''tools/list'' (JObject []) connected)) (uuid4 answered_call) = None"
    by blast
  from s quiet have s1: "\<forall>n. pending (call_moment (example_lib example_table) silent_call
               ''tools/list'' (JObject []) ''https://host/messages?sessionId=42'' connected n)
               (uuid4 silent_call) = Some (length (holders connected))"
    by blast
  from s quiet ok(2) have s2: "pending (snd (rpc (example_lib example_table) silent_call
               ''tools/list'' (JObject []) connected)) (uuid4 silent_call) = None"
    by blast
  from a1 a2 a3 a4 a5 s1 s2 show ?thesis unfolding ids by simp
qed

subsection \<open>C4\<close>

text \<open>
  C4, as stated, fails twice. Status 304 is not a success status, yet line 98 lets it pass:
  in the run \<open>redirected_call\<close> the reply then arrives and \<^verbatim>\<open>_rpc\<close> returns normally.
  And the three failures are not three kinds of error: all are \<open>MCPClientError\<close>, so the
  remote error of \<open>mimic_call\<close> and the timeout of \<open>silent_call\<close> raise the same
  exception.
\<close>

theorem rpc_failures_counterexample:
  "post_result redirected_call = PostReturns 304 []
   \<and> fst (rpc (example_lib example_table) redirected_call ''tools/list'' (JObject []) connected)
     = Inr tools_reply
   \<and> fst (rpc (example_lib example_table) mimic_call ''tools/list'' (JObject []) connected)
     = fst (rpc (example_lib example_table) silent_call ''tools/list'' (JObject []) connected)"
proof -
  have "fst (rpc (example_lib example_table) redirected_call ''tools/list'' (JObject [])
               connected) = Inr tools_reply"
    using rpc_delivers [of connected _ redirected_call 304 "[]" "[]" "(None, tools_reply_text)"
             "[]" "example_lib example_table" _ "''tools/list''" "JObject []"]
    by (simp add: connected_facts redirected_call_def loads_examples tools_reply_def)
  moreover
  have "fst (rpc (example_lib example_table) mimic_call ''tools/list'' (JObject []) connected)
          = Inl (MCPClientError (JString ''Timeout waiting for response to tools/list''))"
    using rpc_delivers [of connected _ mimic_call 200 "[]" "[]" "(None, mimic_reply_text)"
             "[]" "example_lib example_table" _ "''tools/list''" "JObject []"]
    by (simp add: connected_facts mimic_call_def loads_more_examples mimic_reply_def)
  moreover
  have "fst (rpc (example_lib example_table) silent_call ''tools/list'' (JObject []) connected)
          = Inl (MCPClientError (JString ''Timeout waiting for response to tools/list''))"
    using rpc_times_out(1) [of connected _ silent_call 200 "[]" "example_lib example_table"
             "''tools/list''" "JObject []"]
    by (simp add: connected_facts silent_call_def answers_def loads_examples)
  ultimately show ?thesis by (simp add: redirected_call_def)
qed

text \<open>
  C4, amended. All three failures are raised as \<open>MCPClientError\<close> and differ only in
  its argument. Let the write endpoint be known and the POST return. If the status is below
  400 and the first answer to the call arrives before the wait ends and has an \<^verbatim>\<open>error\<close>
  member, \<^verbatim>\<open>_rpc\<close> raises with that member as argument; if the status is 400 or more
  it raises with the HTTP status and body; if the status is below 400 and no answer to the
  call is dispatched before the wait ends it raises with the timeout message; and whenever
  it returns normally, the status was below 400 and an answer without \<^verbatim>\<open>error\<close> member
  was dispatched, which is the value returned.
\<close>

theorem rpc_failures:
  assumes "table_ok c" and "write_url c = Some url"
    and "post_result env = PostReturns status body"
  shows "(status < 400 \<and> listening c \<and> during_post env @ during_wait env = pre @ e # rest
            \<and> list_all (bystander lib (uuid4 env)) pre
            \<and> json_loads lib (snd e) = Loaded (JObject kvs)
            \<and> map_of kvs ''id'' = Some (JString (uuid4 env))
            \<and> map_of kvs ''error'' = Some err
          \<longrightarrow> fst (rpc lib env meth pars c) = Inl (MCPClientError err))
       \<and> (400 \<le> status
          \<longrightarrow> fst (rpc lib env meth pars c)
                = Inl (MCPClientError (JString (''HTTP '' @ str_int status @ '': '' @ body))))
       \<and> (status < 400
            \<and> (\<forall>e \<in> set (during_post env @ during_wait env). \<not> answers lib (uuid4 env) e)
          \<longrightarrow> fst (rpc lib env meth pars c)
                = Inl (MCPClientError (JString (''Timeout waiting for response to '' @ meth))))
       \<and> (\<forall>r. fst (rpc lib env meth pars c) = Inr r
          \<longrightarrow> status < 400
              \<and> (\<exists>e \<in> set (during_post env @ during_wait env).
                    answers lib (uuid4 env) e \<and> json_loads lib (snd e) = Loaded r
                    \<and> \<not> dict_has r ''error''))"
proof (intro conjI impI allI)
  assume a: "status < 400 \<and> listening c \<and> during_post env @ during_wait env = pre @ e # rest
            \<and> list_all (bystander lib (uuid4 env)) pre
            \<and> json_loads lib (snd e) = Loaded (JObject kvs)
            \<and> map_of kvs ''id'' = Some (JString (uuid4 env))
            \<and> map_of kvs ''error'' = Some err"
  then show "fst (rpc lib env meth pars c) = Inl (MCPClientError err)"
    using rpc_delivers [of c url env status body pre e rest lib kvs meth pars] assms
    by simp
next
  assume "400 \<le> status"
  then show "fst (rpc lib env meth pars c)
                = Inl (MCPClientError (JString (''HTTP '' @ str_int status @ '': '' @ body)))"
    using assms by (simp add: rpc_http_error)
next
  assume "status < 400
            \<and> (\<forall>e \<in> set (during_post env @ during_wait env). \<not> answers lib (uuid4 env) e)"
  then show "fst (rpc lib env meth pars c)
                = Inl (MCPClientError (JString (''Timeout waiting for response to '' @ meth)))"
    using assms by (intro rpc_times_out) auto
next
  fix r
  assume ret: "fst (rpc lib env meth pars c) = Inr r"
  from rpc_normal_return(2) [OF assms(1) ret] assms(3) show "status < 400" by simp
  from rpc_normal_return(3) [OF assms(1) ret]
  show "\<exists>e \<in> set (during_post env @ during_wait env).
          answers lib (uuid4 env) e \<and> json_loads lib (snd e) = Loaded r
          \<and> \<not> dict_has r ''error''" .
qed

theorem rpc_failures_witness:
  "fst (rpc (example_lib example_table) failed_call ''tools/list'' (JObject []) connected)
     = Inl (MCPClientError
              (JObject [(''code'', JInt (- 32601)), (''message'', JString ''not found'')]))
   \<and> fst (rpc (example_lib example_table) refused_call ''tools/list'' (JObject []) connected)
     = Inl (MCPClientError (JString ''HTTP 404: Not Found''))
   \<and> fst (rpc (example_lib example_table) silent_call ''tools/list'' (JObject []) connected)
     = Inl (MCPClientError (JString ''Timeout waiting for response to tools/list''))"
  using rpc_failures [where c = connected and env = failed_call and status = 200 and body = "[]"
          and lib = "example_lib example_table" and pre = "[]"
          and e = "(None, error_reply_text)" and rest = "[]"
          and kvs = "[(''id'', JString example_rid), (''error'', error_payload)]"
          and err = error_payload and meth = "''tools/list''" and pars = "JObject []"]
        rpc_failures [where c = connected and env = refused_call and status = 404
          and body = "''Not Found''" and lib = "example_lib example_table"
          and meth = "''tools/list''" and pars = "JObject []"]
        rpc_failures [where c = connected and env = silent_call and status = 200 and body = "[]"
          and lib = "example_lib example_table"
          and meth = "''tools/list''" and pars = "JObject []"]
  by (simp add: connected_facts failed_call_def refused_call_def silent_call_def loads_examples
        error_reply_def error_payload_def str_int_404 answers_def)

subsection \<open>C5\<close>

text \<open>
  C5, as stated, fails: in the run \<open>late_handshake\<close>, with a handshake timeout of 20
  seconds, the first and only discovery of an endpoint happens 20.01 seconds after the
  clock was started, so none is discovered within the timeout; but \<^verbatim>\<open>connect\<close> last
  tested the clock at 19.98 seconds, finds the endpoint at its next test and returns
  normally.
\<close>

theorem handshake_counterexample:
  "first_discovery (example_lib example_table)
       ((init ''https://host/sse'' None 30)\<lparr>listening := True\<rparr>)
       (connect_events late_handshake)
     = Some (2001 / 100)
   \<and> \<not> (2001 / 100 - started late_handshake \<le> 20)
   \<and> connect (example_lib example_table) late_handshake 20 (init ''https://host/sse'' None 30)
     = Some (Inr (), connected)"
  by (simp add: connect_late)
     (simp add: late_handshake_def connect_events_def step_plain init_url connected_facts)

text \<open>
  C5, amended. \<^verbatim>\<open>connect\<close> polls: let the tests of the loop before some test all read
  the clock within the handshake timeout. If that test is the first to read the timeout
  or more, and no event dispatched up to the final test at line 51 has made an endpoint
  known, \<^verbatim>\<open>connect\<close> fails with \<open>TimeoutError\<close>. If an endpoint is known at that test,
  \<^verbatim>\<open>connect\<close> returns normally. And after a normal return the write endpoint is known
  and, the listener still running, a call whose answer arrives during its wait returns it.
  (In the run \<open>noisy_handshake\<close> an object whose \<^verbatim>\<open>id\<close> is a list comes first: it
  does not stop the listener, the table being empty, and the endpoint is still found.)
\<close>

theorem handshake:
  assumes "polls env = pre @ (evs, now) # rest"
    and "\<forall>p \<in> set pre. snd p - started env < hs"
  shows "(rest = [] \<and> hs \<le> now - started env
            \<and> write_url (listener_run lib (map snd (connect_events env))
                           (c\<lparr>listening := True\<rparr>)) = None
          \<longrightarrow> connect lib env hs c
                = Some (Inl (TimeoutError
                               ''Did not receive session write endpoint via SSE handshake''),
                        listener_run lib (map snd (connect_events env))
                          (c\<lparr>listening := True\<rparr>)))
       \<and> (write_url (listener_run lib (map snd (concat (map fst pre) @ evs))
                        (c\<lparr>listening := True\<rparr>)) \<noteq> None
          \<longrightarrow> (\<exists>c1. connect lib env hs c = Some (Inr (), c1)))
       \<and> (connect lib env hs c = Some (Inr (), c') \<and> table_ok c \<and> listening c'
            \<and> json_loads lib d = Loaded (JObject kvs)
            \<and> map_of kvs ''id'' = Some (JString rid) \<and> map_of kvs ''error'' = None
          \<longrightarrow> write_url c' \<noteq> None
              \<and> fst (rpc lib \<lparr>uuid4 = rid, during_post = [], post_result = PostReturns 200 body,
                              during_wait = [(ev, d)], after_timeout = []\<rparr> meth pars c')
                  = Inr (JObject kvs))"
proof (intro conjI impI)
  assume a: "rest = [] \<and> hs \<le> now - started env
            \<and> write_url (listener_run lib (map snd (connect_events env))
                           (c\<lparr>listening := True\<rparr>)) = None"
  then have "rest = []" and "hs \<le> now - started env"
    and "write_url (listener_run lib (map snd (connect_events env))
                      (c\<lparr>listening := True\<rparr>)) = None"
    by blast+
  with assms show "connect lib env hs c
          = Some (Inl (TimeoutError
                         ''Did not receive session write endpoint via SSE handshake''),
                  listener_run lib (map snd (connect_events env)) (c\<lparr>listening := True\<rparr>))"
    by (rule handshake_times_out)
next
  assume "write_url (listener_run lib (map snd (concat (map fst pre) @ evs))
                       (c\<lparr>listening := True\<rparr>)) \<noteq> None"
  with assms show "\<exists>c1. connect lib env hs c = Some (Inr (), c1)"
    by (rule handshake_succeeds)
next
  assume a: "connect lib env hs c = Some (Inr (), c') \<and> table_ok c \<and> listening c'
            \<and> json_loads lib d = Loaded (JObject kvs)
            \<and> map_of kvs ''id'' = Some (JString rid) \<and> map_of kvs ''error'' = None"
  then have b: "connect lib env hs c = Some (Inr (), c')" "table_ok c" "listening c'"
       "json_loads lib d = Loaded (JObject kvs)"
       "map_of kvs ''id'' = Some (JString rid)" "map_of kvs ''error'' = None"
    by blast+
  show "write_url c' \<noteq> None" using b by (rule call_after_handshake(1))
  show "fst (rpc lib \<lparr>uuid4 = rid, during_post = [], post_result = PostReturns 200 body,
                      during_wait = [(ev, d)], after_timeout = []\<rparr> meth pars c')
          = Inr (JObject kvs)"
    using b by (rule call_after_handshake(2))
qed

theorem handshake_witness:
  "connect (example_lib example_table) mute_handshake 20 (init ''https://host/sse'' None 30)
     = Some (Inl (TimeoutError ''Did not receive session write endpoint via SSE handshake''),
             (init ''https://host/sse'' None 30)\<lparr>listening := True\<rparr>)
   \<and> connect (example_lib example_table) prompt_handshake 20 (init ''https://host/sse'' None 30)
     = Some (Inr (), connected)
   \<and> connect (example_lib example_table) noisy_handshake 20 (init ''https://host/sse'' None 30)
     = Some (Inr (), connected)
   \<and> fst (rpc (example_lib example_table)
             \<lparr>uuid4 = example_rid, during_post = [], post_result = PostReturns 200 [],
              during_wait = [(None, tools_reply_text)], after_timeout = []\<rparr>
             ''tools/list'' (JObject []) connected)
     = Inr tools_reply"
proof -
  have mute: "listener_run (example_lib example_table) (map snd (connect_events mute_handshake))
                ((init ''https://host/sse'' None 30)\<lparr>listening := True\<rparr>)
              = (init ''https://host/sse'' None 30)\<lparr>listening := True\<rparr>"
    by (simp add: connect_events_def mute_handshake_def run_Nil)
  have ok: "table_ok (init ''https://host/sse'' None 30)"
    by (simp add: init_def table_ok_def)
  have polls: "polls mute_handshake = [([], 1998 / 100)] @ ([], 2003 / 100) # []"
    "started mute_handshake = 0"
    "polls prompt_handshake
       = [] @ ([(2 / 100, (Some ''endpoint'', ''/messages?sessionId=42''))], 5 / 100) # []"
    by (simp_all add: mute_handshake_def prompt_handshake_def)
  have a: "connect (example_lib example_table) mute_handshake 20 (init ''https://host/sse'' None 30)
     = Some (Inl (TimeoutError ''Did not receive session write endpoint via SSE handshake''),
             (init ''https://host/sse'' None 30)\<lparr>listening := True\<rparr>)"
    using handshake [where env = mute_handshake and pre = "[([], 1998 / 100)]" and evs = "[]"
            and now = "2003 / 100" and rest = "[]" and hs = 20
            and lib = "example_lib example_table" and c = "init ''https://host/sse'' None 30",
            OF polls(1)]
    by (simp add: mute polls(2) init_url)
  have b: "connect (example_lib example_table) prompt_handshake 20
             (init ''https://host/sse'' None 30) = Some (Inr (), connected)
         \<and> fst (rpc (example_lib example_table)
             \<lparr>uuid4 = example_rid, during_post = [], post_result = PostReturns 200 [],
              during_wait = [(None, tools_reply_text)], after_timeout = []\<rparr>
             ''tools/list'' (JObject []) connected)
           = Inr tools_reply"
    using handshake [where env = prompt_handshake and pre = "[]"
            and evs = "[(2 / 100, (Some ''endpoint'', ''/messages?sessionId=42''))]"
            and now = "5 / 100" and rest = "[]" and hs = 20
            and lib = "example_lib example_table" and c = "init ''https://host/sse'' None 30"
            and c' = connected and d = tools_reply_text
            and kvs = "[(''jsonrpc'', JString ''2.0''), (''id'', JString example_rid),
                        (''result'', JObject [(''tools'', tools_payload)])]"
            and rid = example_rid and body = "[]" and ev = None
            and meth = "''tools/list''" and pars = "JObject []", OF polls(3)]
    by (simp add: connect_prompt ok connected_facts loads_examples tools_reply_def)
  from a b connect_noisy show ?thesis by simp
qed

subsection \<open>C6\<close>

text \<open>
  C6: when the payload decodes to an object whose \<^verbatim>\<open>id\<close> is not a key of the pending
  table, the handler, and so the listener, leaves the table and every holder as they
  were: no entry is removed and no waiter is signalled.
\<close>

theorem unknown_response_dropped:
  assumes "json_loads lib data = Loaded obj"
    and "subscript obj ''id'' = Inr k"
    and "k \<notin> JString ` dom (pending c)"
  shows "pending (snd (handle_sse_event lib event data c)) = pending c
       \<and> holders (snd (handle_sse_event lib event data c)) = holders c
       \<and> pending (listener_step lib c (event, data)) = pending c
       \<and> holders (listener_step lib c (event, data)) = holders c"
proof -
  have absent: "pending c s = None" if "k = JString s" for s
    using that assms(3) by (cases "pending c s") auto
  show ?thesis
    using handle_unknown_id [OF assms(1,2) absent, of event]
          step_unknown_id [of lib "(event, data)" obj k c] assms(1,2) absent
    by simp
qed

theorem unknown_response_dropped_witness:
  "pending (rpc_register ''7c9e6679'' connected) ''7c9e6679'' = Some 0
   \<and> pending (listener_step (example_lib example_table) (rpc_register ''7c9e6679'' connected)
        (None, tools_reply_text))
      = pending (rpc_register ''7c9e6679'' connected)
   \<and> holders (listener_step (example_lib example_table) (rpc_register ''7c9e6679'' connected)
        (None, tools_reply_text))
      = holders (rpc_register ''7c9e6679'' connected)"
  using unknown_response_dropped [of "example_lib example_table" tools_reply_text tools_reply
          "JString example_rid" "rpc_register ''7c9e6679'' connected" None]
  by (simp add: loads_examples tools_reply_def rpc_register_def connected_facts example_rid_def)

subsection \<open>C7\<close>

text \<open>
  C7: once a write endpoint is recorded, no event changes it, whether the handler is
  called once or the listener dispatches any sequence of events; so the endpoint recorded
  after a prefix of the stream is the endpoint after the whole stream.
\<close>

theorem first_endpoint_wins:
  assumes "write_url (listener_run lib earlier c) = Some u"
  shows "write_url (snd (handle_sse_event lib event data (listener_run lib earlier c))) = Some u
       \<and> write_url (listener_run lib (earlier @ later) c) = Some u"
  using assms by (simp add: handle_keeps_url run_append run_keeps_url)

theorem first_endpoint_wins_witness:
  "write_url
     (listener_run (example_lib example_table) [(Some ''endpoint'', ''/messages?sessionId=42'')]
        ((init ''https://host/sse?code=ABC'' None 30)\<lparr>listening := True\<rparr>))
     = Some ''https://host/messages?sessionId=42''
   \<and> write_url
     (listener_run (example_lib example_table)
        ([(Some ''endpoint'', ''/messages?sessionId=42'')]
           @ [(Some ''endpoint'', ''/other''), (None, endpoint_message_text)])
        ((init ''https://host/sse?code=ABC'' None 30)\<lparr>listening := True\<rparr>))
     = Some ''https://host/messages?sessionId=42''"
  using first_endpoint_wins
          [of "example_lib example_table" "[(Some ''endpoint'', ''/messages?sessionId=42'')]"
              "(init ''https://host/sse?code=ABC'' None 30)\<lparr>listening := True\<rparr>"
              "''https://host/messages?sessionId=42''" None "[]"
              "[(Some ''endpoint'', ''/other''), (None, endpoint_message_text)]"]
  by (simp add: discover_example)

subsection \<open>C8\<close>

text \<open>
  C8, as stated, fails: two thousand opening brackets are not valid JSON, the decoder
  raises \<open>RecursionError\<close> on them, line 62 catches only \<^verbatim>\<open>JSONDecodeError\<close>, and so the
  handler raises and the listener ends.
\<close>

theorem malformed_event_counterexample:
  "handle_sse_event (depth_limited (example_lib example_table)) None deep_text connected
     = (Inl RecursionError, connected)
   \<and> listening connected
   \<and> \<not> listening (listener_step (depth_limited (example_lib example_table)) connected
                     (None, deep_text))"
  by (simp add: handle_sse_event_def listener_step_def loads_deep connected_facts)

text \<open>
  C8, amended: a payload that is not taken as a bare \<^verbatim>\<open>endpoint\<close> discovery event (the
  event is not named \<^verbatim>\<open>endpoint\<close>, or its payload is empty, or the write endpoint is
  known) and that \<^verbatim>\<open>json.loads\<close> rejects with \<^verbatim>\<open>JSONDecodeError\<close> makes
  \<^verbatim>\<open>_handle_sse_event\<close> return normally with the client unchanged, the write endpoint
  and the pending table included.
\<close>

theorem malformed_event_ignored:
  assumes "json_loads lib data = JSONDecodeError"
    and "\<not> (event = Some ''endpoint'' \<and> data \<noteq> [] \<and> write_url c = None)"
  shows "handle_sse_event lib event data c = (Inr (), c)"
  using assms by (auto simp: handle_sse_event_def)

theorem malformed_event_ignored_witness:
  "json_loads (example_lib []) '': keep-alive'' = JSONDecodeError
   \<and> handle_sse_event (example_lib []) (Some ''message'') '': keep-alive''
        (init ''https://host/sse'' None 30)
      = (Inr (), init ''https://host/sse'' None 30)"
  using malformed_event_ignored
          [of "example_lib []" "'': keep-alive''" "Some ''message''"
              "init ''https://host/sse'' None 30"]
  by (simp add: example_lib_def)

subsection \<open>C9\<close>

text \<open>
  C9: when the POST returns a status of 400 or more, \<^verbatim>\<open>_rpc\<close> raises the HTTP error
  whatever would have happened during the wait, which it never starts; and unless the
  listener dispatched an answer to the call while the POST was under way, the entry
  registered for the call is still in the pending table afterwards.
\<close>

theorem http_error_keeps_entry:
  assumes "write_url c = Some url"
    and "post_result env = PostReturns status body"
    and "400 \<le> status"
    and "\<forall>e \<in> set (during_post env). \<not> answers lib (uuid4 env) e"
  shows "fst (rpc lib env method params c)
           = Inl (MCPClientError (JString (''HTTP '' @ str_int status @ '': '' @ body)))
       \<and> pending (snd (rpc lib env method params c)) (uuid4 env) = Some (length (holders c))
       \<and> rpc lib (env\<lparr>during_wait := evs, after_timeout := evs'\<rparr>) method params c
           = rpc lib env method params c"
proof -
  have "rpc lib (env\<lparr>during_wait := evs, after_timeout := evs'\<rparr>) method params c
          = rpc lib env method params c"
    using assms(1-3) by (simp add: rpc_def Let_def)
  moreover have "pending (snd (rpc lib env method params c)) (uuid4 env)
                   = Some (length (holders c))"
    using assms(4)
    by (simp add: rpc_http_error [OF assms(1-3)] run_pending_other rpc_post_def rpc_register_def)
  ultimately show ?thesis by (simp add: rpc_http_error [OF assms(1-3)])
qed

theorem http_error_keeps_entry_witness:
  "fst (rpc (example_lib example_table) refused_call ''tools/list'' (JObject []) connected)
     = Inl (MCPClientError (JString ''HTTP 404: Not Found''))
   \<and> pending (snd (rpc (example_lib example_table) refused_call ''tools/list'' (JObject [])
        connected)) example_rid = Some 0"
  using http_error_keeps_entry [of connected _ refused_call 404 "''Not Found''"
          "example_lib example_table" "''tools/list''" "JObject []" "[]" "[]"]
  by (simp add: connected_facts refused_call_def str_int_404 answers_def loads_examples)

subsection \<open>C10\<close>

text \<open>
  C10: while the write endpoint is undiscovered, \<^verbatim>\<open>_rpc\<close> and every wrapper of it raise
  the \<open>MCPClientError\<close> of line 85 and leave the client as it was: no correlation id is
  drawn, no Pending Request registered, no POST sent.
\<close>

theorem rpc_requires_endpoint:
  assumes "write_url c = None"
  shows "rpc lib env method params c = (Inl not_connected, c)
       \<and> initialize lib env protocol_version client_name client_version c = (Inl not_connected, c)
       \<and> list_tools lib env c = (Inl not_connected, c)
       \<and> call_tool lib env name arguments c = (Inl not_connected, c)
       \<and> search lib env query c = (Inl not_connected, c)
       \<and> search_by_doc_id lib env doc_id c = (Inl not_connected, c)"
  using assms
  by (simp add: rpc_def initialize_def list_tools_def call_tool_def tool_json_def search_def
        search_by_doc_id_def)

theorem rpc_requires_endpoint_witness:
  "write_url (init ''https://host/sse'' None 30) = None
   \<and> rpc (example_lib example_table) answered_call ''tools/list'' (JObject [])
        (init ''https://host/sse'' None 30)
      = (Inl not_connected, init ''https://host/sse'' None 30)
   \<and> search (example_lib example_table) answered_call ''Azure Service Bus''
        (init ''https://host/sse'' None 30)
      = (Inl not_connected, init ''https://host/sse'' None 30)
   \<and> issued (init ''https://host/sse'' None 30) = []
   \<and> posts (init ''https://host/sse'' None 30) = []"
  using rpc_requires_endpoint [of "init ''https://host/sse'' None 30"
          "example_lib example_table" answered_call]
  by (simp add: init_def)

end
